theory Spec2Isabelle
  imports Complex_Main
begin

section \<open>Data model of \<open>motor_controller.py\<close>\<close>

text \<open>
  The controller is modelled by explicit state passing: every function takes the
  controller and a trace of what has been done to the outside world, and returns both
  together with an outcome, which is an exception or a normal return. Python floats are
  modelled by the real numbers: arithmetic on millimetre values is exact (no rounding
  error in \<open>mm * steps_per_mm\<close> or in \<open>position + mm\<close>), and the values \<open>nan\<close>
  and \<open>inf\<close>, on which \<open>round\<close> raises, are outside the model. Python integers
  are \<open>int\<close>.
\<close>

datatype direction = FORWARD | BACKWARD

text \<open>
  The value of an attribute of the \<open>Stepper\<close> namespace, which is what the
  controller keeps as its step style: one of the four styles, one of the two direction
  flags, or the value of any further attribute, known by its name.
\<close>

datatype step_style =
    SINGLE | DOUBLE | INTERLEAVE | MICROSTEP
  | Direction direction
  | Attribute string

text \<open>
  A stepper object of the hardware library is an opaque handle. An entry of the
  \<open>steppers\<close> dictionary holds either such an object or Python's \<open>None\<close>.
\<close>

type_synonym handle = nat

text \<open>
  Everything the code does to the outside world is recorded, in order, in a trace:
  a call of \<open>onestep\<close> on a stepper object, the \<open>[STUB]\<close> line printed instead of
  it, a \<open>time.sleep\<close>, and the two things the control panel does in \<open>_home\<close>
  (refreshing the position labels, showing a dialog).
\<close>

datatype event =
    Onestep string handle step_style direction
  | StubPrint string direction
  | Sleep real
  | LabelUpdate real real
  | ShowInfo string string

datatype error = DriverError | ValueError | KeyError | AttributeError

type_synonym outcome = "error + unit"

abbreviation Returned :: outcome where
  "Returned \<equiv> Inr ()"

text \<open>
  The environment of the controller: whether the hardware libraries were imported
  (\<open>REAL_HARDWARE\<close>), the stepper attribute \<open>stepper<channel>\<close> of the \<open>MotorKit\<close>
  object, if there is one, which names the \<open>Stepper\<close> namespace has besides the six
  constants of the source (the attributes Python gives every class, and those of the
  hardware library's module), and whether a call of \<open>onestep\<close> raises. The last is a
  function of the trace up to and including that call, so a failure may depend on the
  motor, on the direction and on everything that happened before.
\<close>

record env =
  real_hardware :: bool
  kit_stepper :: "int \<Rightarrow> handle option"
  stepper_extra :: "string \<Rightarrow> bool"
  onestep_raises :: "event list \<Rightarrow> bool"

record controller =
  step_style :: step_style
  step_delay :: real
  steps_per_mm_x :: real
  steps_per_mm_z :: real
  steppers :: "string \<Rightarrow> handle option option"
  pos_x :: real
  pos_z :: real

section \<open>Construction\<close>

text \<open>
  The parsed configuration document, as \<open>yaml.safe_load\<close> returns it; opening and
  parsing the file are not modelled. Every key read with \<open>.get\<close> is optional; the
  calibration block is read with \<open>cfg["calibration"]\<close> and is required. The
  \<open>motors\<close> dictionary is the list of its items, in iteration order.
\<close>

record calibration_cfg =
  cal_steps_per_mm_x :: "real option"
  cal_steps_per_mm_z :: "real option"

record config =
  cfg_step_style :: "string option"
  cfg_step_delay :: "real option"
  cfg_calibration :: "calibration_cfg option"
  cfg_motors :: "(string \<times> int) list option"

text \<open>
  \<open>getattr(Stepper, name)\<close>: the six constants of the \<open>Stepper\<close> class of the
  source, then whatever else the namespace holds. A name it does not hold is an
  \<open>AttributeError\<close>.
\<close>

definition stepper_attr :: "env \<Rightarrow> string \<Rightarrow> step_style option" where
  "stepper_attr e name =
     (if name = ''FORWARD'' then Some (Direction FORWARD)
      else if name = ''BACKWARD'' then Some (Direction BACKWARD)
      else if name = ''SINGLE'' then Some SINGLE
      else if name = ''DOUBLE'' then Some DOUBLE
      else if name = ''INTERLEAVE'' then Some INTERLEAVE
      else if name = ''MICROSTEP'' then Some MICROSTEP
      else if stepper_extra e name then Some (Attribute name)
      else None)"

definition get_default :: "'a option \<Rightarrow> 'a \<Rightarrow> 'a" where
  "get_default v d = (case v of None \<Rightarrow> d | Some a \<Rightarrow> a)"

text \<open>
  \<open>_init_steppers\<close>: one pass over the items of the \<open>motors\<close> dictionary. A channel
  is bound to the kit's stepper object when the hardware is there and the kit has the
  attribute, and to \<open>None\<close> otherwise. The kit is the one \<open>MotorKit()\<close> returned;
  without the hardware libraries it is \<open>None\<close> and is never looked at.
\<close>

definition resolve :: "env \<Rightarrow> int \<Rightarrow> handle option" where
  "resolve e channel =
     (if real_hardware e \<and> kit_stepper e channel \<noteq> None then kit_stepper e channel else None)"

fun init_steppers ::
  "env \<Rightarrow> (string \<times> int) list \<Rightarrow> (string \<Rightarrow> handle option option) \<Rightarrow> (string \<Rightarrow> handle option option)"
where
  "init_steppers e [] m = m"
| "init_steppers e ((name, channel) # rest) m = init_steppers e rest (m(name \<mapsto> resolve e channel))"

definition init :: "env \<Rightarrow> config \<Rightarrow> error + controller" where
  "init e cfg =
     (case stepper_attr e (get_default (cfg_step_style cfg) ''SINGLE'') of
        None \<Rightarrow> Inl AttributeError
      | Some style \<Rightarrow>
         (case cfg_calibration cfg of
            None \<Rightarrow> Inl KeyError
          | Some cal \<Rightarrow>
              Inr \<lparr> step_style = style,
                    step_delay = get_default (cfg_step_delay cfg) (1 / 100),
                    steps_per_mm_x = get_default (cal_steps_per_mm_x cal) 80,
                    steps_per_mm_z = get_default (cal_steps_per_mm_z cal) 100,
                    steppers = init_steppers e (get_default (cfg_motors cfg) []) Map.empty,
                    pos_x = 0,
                    pos_z = 0 \<rparr>))"

section \<open>Stepping\<close>

text \<open>
  \<open>_step_motor\<close>: \<open>self.steppers.get(name)\<close> is \<open>None\<close> for a name that is not a key
  and for a key bound to \<open>None\<close>. With the hardware present and a stepper object, the
  object's \<open>onestep\<close> is called, and may raise; otherwise the stub line is printed.
\<close>

definition step_motor ::
  "env \<Rightarrow> controller \<Rightarrow> string \<Rightarrow> direction \<Rightarrow> event list \<Rightarrow> outcome \<times> event list"
where
  "step_motor e mc name dir tr =
     (let stepper_obj = (case steppers mc name of None \<Rightarrow> None | Some v \<Rightarrow> v) in
      case (real_hardware e, stepper_obj) of
        (True, Some h) \<Rightarrow>
          (let tr' = tr @ [Onestep name h (step_style mc) dir] in
           if onestep_raises e tr' then (Inl DriverError, tr') else (Returned, tr'))
      | _ \<Rightarrow> (Returned, tr @ [StubPrint name dir]))"

text \<open>
  The \<open>for nm in names\<close> loop of \<open>_step_multiple\<close>. An exception leaves the loop and
  the function.
\<close>

fun step_each ::
  "env \<Rightarrow> controller \<Rightarrow> string list \<Rightarrow> direction \<Rightarrow> event list \<Rightarrow> outcome \<times> event list"
where
  "step_each e mc [] dir tr = (Returned, tr)"
| "step_each e mc (nm # names) dir tr =
     (case step_motor e mc nm dir tr of
        (Inl err, tr') \<Rightarrow> (Inl err, tr')
      | (Inr u, tr') \<Rightarrow> step_each e mc names dir tr')"

text \<open>
  \<open>_step_multiple\<close>: step every named motor, then \<open>time.sleep(self.step_delay)\<close>,
  which raises \<open>ValueError\<close> on a negative delay.
\<close>

definition step_multiple ::
  "env \<Rightarrow> controller \<Rightarrow> string list \<Rightarrow> direction \<Rightarrow> event list \<Rightarrow> outcome \<times> event list"
where
  "step_multiple e mc names dir tr =
     (case step_each e mc names dir tr of
        (Inl err, tr') \<Rightarrow> (Inl err, tr')
      | (Inr u, tr') \<Rightarrow>
          if step_delay mc < 0 then (Inl ValueError, tr')
          else (Returned, tr' @ [Sleep (step_delay mc)]))"

text \<open>The loop \<open>for _ in range(abs(steps))\<close> around \<open>_step_multiple\<close>.\<close>

fun step_groups ::
  "env \<Rightarrow> controller \<Rightarrow> string list \<Rightarrow> direction \<Rightarrow> nat \<Rightarrow> event list \<Rightarrow> outcome \<times> event list"
where
  "step_groups e mc names dir 0 tr = (Returned, tr)"
| "step_groups e mc names dir (Suc n) tr =
     (case step_multiple e mc names dir tr of
        (Inl err, tr') \<Rightarrow> (Inl err, tr')
      | (Inr u, tr') \<Rightarrow> step_groups e mc names dir n tr')"

section \<open>Single-axis moves\<close>

text \<open>
  Python's \<open>round\<close> with one argument: the nearest integer, a tie going to the even
  neighbour.
\<close>

definition py_round :: "real \<Rightarrow> int" where
  "py_round v =
     (let f = \<lfloor>v\<rfloor>; r = v - of_int f in
      if r < 1 / 2 then f
      else if 1 / 2 < r then f + 1
      else if even f then f else f + 1)"

definition direction_of :: "int \<Rightarrow> direction" where
  "direction_of steps = (if steps > 0 then FORWARD else BACKWARD)"

text \<open>
  \<open>move_x\<close> and \<open>move_z\<close>. The state is the controller together with the trace. A
  zero step count returns at once; an exception in the step loop leaves the function
  before the position is written.
\<close>

definition move_x ::
  "env \<Rightarrow> real \<Rightarrow> controller \<times> event list \<Rightarrow> outcome \<times> controller \<times> event list"
where
  "move_x e mm s =
     (case s of (mc, tr) \<Rightarrow>
        let steps = py_round (mm * steps_per_mm_x mc) in
        if steps = 0 then (Returned, mc, tr)
        else
          (case step_groups e mc [''x_left'', ''x_right''] (direction_of steps) (nat \<bar>steps\<bar>) tr of
             (Inl err, tr') \<Rightarrow> (Inl err, mc, tr')
           | (Inr u, tr') \<Rightarrow> (Returned, mc\<lparr>pos_x := pos_x mc + mm\<rparr>, tr')))"

definition move_z ::
  "env \<Rightarrow> real \<Rightarrow> controller \<times> event list \<Rightarrow> outcome \<times> controller \<times> event list"
where
  "move_z e mm s =
     (case s of (mc, tr) \<Rightarrow>
        let steps = py_round (mm * steps_per_mm_z mc) in
        if steps = 0 then (Returned, mc, tr)
        else
          (case step_groups e mc [''z_axis''] (direction_of steps) (nat \<bar>steps\<bar>) tr of
             (Inl err, tr') \<Rightarrow> (Inl err, mc, tr')
           | (Inr u, tr') \<Rightarrow> (Returned, mc\<lparr>pos_z := pos_z mc + mm\<rparr>, tr')))"

section \<open>Coordinated move\<close>

text \<open>
  The state of the \<open>while\<close> loop of \<open>move_to\<close>: the error accumulator \<open>err\<close>, the
  two counters \<open>x\<close> and \<open>z\<close>, and the trace. One iteration computes \<open>e2\<close> once and
  runs the two \<open>if\<close> statements in order.
\<close>

type_synonym loop_state = "int \<times> int \<times> int \<times> event list"

definition x_branch ::
  "env \<Rightarrow> controller \<Rightarrow> direction \<Rightarrow> int \<Rightarrow> int \<Rightarrow> int \<Rightarrow> loop_state \<Rightarrow> outcome \<times> loop_state"
where
  "x_branch e mc sx x_steps z_steps e2 st =
     (case st of (err, x, z, tr) \<Rightarrow>
        if x < x_steps \<and> e2 > - z_steps then
          (case step_multiple e mc [''x_left'', ''x_right''] sx tr of
             (Inl ex, tr') \<Rightarrow> (Inl ex, (err, x, z, tr'))
           | (Inr u, tr') \<Rightarrow> (Returned, (err - z_steps, x + 1, z, tr')))
        else (Returned, st))"

definition z_branch ::
  "env \<Rightarrow> controller \<Rightarrow> direction \<Rightarrow> int \<Rightarrow> int \<Rightarrow> int \<Rightarrow> loop_state \<Rightarrow> outcome \<times> loop_state"
where
  "z_branch e mc sz x_steps z_steps e2 st =
     (case st of (err, x, z, tr) \<Rightarrow>
        if z < z_steps \<and> e2 < x_steps then
          (case step_multiple e mc [''z_axis''] sz tr of
             (Inl ex, tr') \<Rightarrow> (Inl ex, (err, x, z, tr'))
           | (Inr u, tr') \<Rightarrow> (Returned, (err + x_steps, x, z + 1, tr')))
        else (Returned, st))"

definition loop_body ::
  "env \<Rightarrow> controller \<Rightarrow> direction \<Rightarrow> direction \<Rightarrow> int \<Rightarrow> int \<Rightarrow> loop_state \<Rightarrow> outcome \<times> loop_state"
where
  "loop_body e mc sx sz x_steps z_steps st =
     (let e2 = fst st * 2 in
      case x_branch e mc sx x_steps z_steps e2 st of
        (Inl ex, st') \<Rightarrow> (Inl ex, st')
      | (Inr u, st') \<Rightarrow> z_branch e mc sz x_steps z_steps e2 st')"

text \<open>
  The loop itself. Nothing in its text says that it ends, so its result is optional:
  \<open>None\<close> is a loop that runs forever.
\<close>

partial_function (option) interleave ::
  "env \<Rightarrow> controller \<Rightarrow> direction \<Rightarrow> direction \<Rightarrow> int \<Rightarrow> int \<Rightarrow> loop_state \<Rightarrow> (outcome \<times> loop_state) option"
where
  "interleave e mc sx sz x_steps z_steps st =
     (if fst (snd st) < x_steps \<or> fst (snd (snd st)) < z_steps then
        (case loop_body e mc sx sz x_steps z_steps st of
           (Inl ex, st') \<Rightarrow> Some (Inl ex, st')
         | (Inr u, st') \<Rightarrow> interleave e mc sx sz x_steps z_steps st')
      else Some (Returned, st))"

declare interleave.simps [code]

definition move_to ::
  "env \<Rightarrow> real \<Rightarrow> real \<Rightarrow> controller \<times> event list \<Rightarrow> (outcome \<times> controller \<times> event list) option"
where
  "move_to e x_mm z_mm s =
     (case s of (mc, tr) \<Rightarrow>
        let dx = x_mm - pos_x mc;
            dz = z_mm - pos_z mc;
            x_steps = py_round (dx * steps_per_mm_x mc);
            z_steps = py_round (dz * steps_per_mm_z mc);
            sx = direction_of x_steps;
            sz = direction_of z_steps;
            x_steps = \<bar>x_steps\<bar>;
            z_steps = \<bar>z_steps\<bar>;
            err = x_steps - z_steps
        in
          (case interleave e mc sx sz x_steps z_steps (err, 0, 0, tr) of
             None \<Rightarrow> None
           | Some (Inl ex, st) \<Rightarrow> Some (Inl ex, mc, snd (snd (snd st)))
           | Some (Inr u, st) \<Rightarrow>
               Some (Returned, mc\<lparr>pos_x := x_mm, pos_z := z_mm\<rparr>, snd (snd (snd st)))))"

section \<open>The control panel's home button\<close>

text \<open>
  \<open>_home\<close> of \<open>manual_gui.py\<close>: the position dictionary is replaced by
  \<open>{'x': 0.0, 'z': 0.0}\<close>, the two labels are refreshed from it and a dialog is shown.
\<close>

definition update_position :: "controller \<times> event list \<Rightarrow> controller \<times> event list" where
  "update_position s = (case s of (mc, tr) \<Rightarrow> (mc, tr @ [LabelUpdate (pos_x mc) (pos_z mc)]))"

definition home :: "controller \<times> event list \<Rightarrow> controller \<times> event list" where
  "home s =
     (case s of (mc, tr) \<Rightarrow>
        (case update_position (mc\<lparr>pos_x := 0, pos_z := 0\<rparr>, tr) of
           (mc', tr') \<Rightarrow> (mc', tr' @ [ShowInfo ''Home'' ''Position reset to (0,0)''])))"

section \<open>Reading the trace\<close>

text \<open>
  A driver call is a step of a motor, physical or simulated. \<open>steps_of name\<close> counts
  the steps of one motor, \<open>sleeps\<close> the step delays, \<open>physical\<close> the calls that reach
  a stepper object.
\<close>

fun is_step_of :: "string \<Rightarrow> event \<Rightarrow> bool" where
  "is_step_of name (Onestep n h st d) = (n = name)"
| "is_step_of name (StubPrint n d) = (n = name)"
| "is_step_of name _ = False"

fun is_driver_call :: "event \<Rightarrow> bool" where
  "is_driver_call (Onestep n h st d) = True"
| "is_driver_call (StubPrint n d) = True"
| "is_driver_call _ = False"

fun is_physical :: "event \<Rightarrow> bool" where
  "is_physical (Onestep n h st d) = True"
| "is_physical _ = False"

fun is_sleep :: "event \<Rightarrow> bool" where
  "is_sleep (Sleep d) = True"
| "is_sleep _ = False"

definition steps_of :: "string \<Rightarrow> event list \<Rightarrow> nat" where
  "steps_of name tr = length (filter (is_step_of name) tr)"

definition sleeps :: "event list \<Rightarrow> nat" where
  "sleeps tr = length (filter is_sleep tr)"

definition driver_calls :: "event list \<Rightarrow> event list" where
  "driver_calls tr = filter is_driver_call tr"

definition physical :: "event list \<Rightarrow> event list" where
  "physical tr = filter is_physical tr"

text \<open>
  A move that was cut short by a failing stepper call: the new part of the trace ends
  with a physical call, and that call is the one that raised.
\<close>

definition aborted :: "env \<Rightarrow> event list \<Rightarrow> event list \<Rightarrow> bool" where
  "aborted e tr tr' =
     (\<exists>new. tr' = tr @ new \<and> new \<noteq> [] \<and> is_physical (last new) \<and> onestep_raises e tr')"

text \<open>
  The sequence a move sets out to issue, whether or not a call raises on the way: the
  event one step of a motor leaves in the trace, the events of one step group (its
  motors in order, then the delay), and \<open>n\<close> groups in a row.
\<close>

definition step_event :: "env \<Rightarrow> controller \<Rightarrow> string \<Rightarrow> direction \<Rightarrow> event" where
  "step_event e mc name dir =
     (case (real_hardware e, case steppers mc name of None \<Rightarrow> None | Some v \<Rightarrow> v) of
        (True, Some h) \<Rightarrow> Onestep name h (step_style mc) dir
      | _ \<Rightarrow> StubPrint name dir)"

definition group_events :: "env \<Rightarrow> controller \<Rightarrow> string list \<Rightarrow> direction \<Rightarrow> event list" where
  "group_events e mc names dir = map (\<lambda>nm. step_event e mc nm dir) names @ [Sleep (step_delay mc)]"

definition planned :: "env \<Rightarrow> controller \<Rightarrow> string list \<Rightarrow> direction \<Rightarrow> nat \<Rightarrow> event list" where
  "planned e mc names dir n = concat (replicate n (group_events e mc names dir))"

text \<open>
  Going through such a sequence from the trace \<open>tr\<close>: the trace up to and including the
  first physical call that raises, or \<open>None\<close> when no call of the sequence raises.
\<close>

fun first_failure :: "(event list \<Rightarrow> bool) \<Rightarrow> event list \<Rightarrow> event list \<Rightarrow> event list option" where
  "first_failure raises tr [] = None"
| "first_failure raises tr (ev # evs) =
     (if is_physical ev \<and> raises (tr @ [ev]) then Some (tr @ [ev])
      else first_failure raises (tr @ [ev]) evs)"

text \<open>
  The states the loop of \<open>move_to\<close> passes through: the counters stay within their
  targets and the accumulator is a fixed function of them.
\<close>

definition on_line :: "int \<Rightarrow> int \<Rightarrow> loop_state \<Rightarrow> bool" where
  "on_line x_steps z_steps st =
     (case st of (err, x, z, tr) \<Rightarrow>
        0 \<le> x \<and> x \<le> x_steps \<and> 0 \<le> z \<and> z \<le> z_steps \<and>
        err = x_steps * (1 + z) - z_steps * (1 + x))"

text \<open>
  What the trace gained between \<open>tr\<close> and \<open>tr'\<close>, counted in step groups: an X
  group steps \<open>x_left\<close> and \<open>x_right\<close> once each and sleeps once, a Z group steps
  \<open>z_axis\<close> once and sleeps once.
\<close>

definition emitted :: "event list \<Rightarrow> event list \<Rightarrow> nat \<Rightarrow> nat \<Rightarrow> bool" where
  "emitted tr tr' nx nz =
     (steps_of ''x_left'' tr' = steps_of ''x_left'' tr + nx \<and>
      steps_of ''x_right'' tr' = steps_of ''x_right'' tr + nx \<and>
      steps_of ''z_axis'' tr' = steps_of ''z_axis'' tr + nz \<and>
      sleeps tr' = sleeps tr + nx + nz)"

text \<open>An environment in which no stepper call ever raises.\<close>

definition no_faults :: "env \<Rightarrow> bool" where
  "no_faults e = (\<forall>tr. \<not> onestep_raises e tr)"

text \<open>A motor name that \<open>_step_motor\<close> serves with the stub line.\<close>

definition simulated :: "env \<Rightarrow> controller \<Rightarrow> string \<Rightarrow> bool" where
  "simulated e mc nm = (\<not> real_hardware e \<or> steppers mc nm = None \<or> steppers mc nm = Some None)"

text \<open>The step groups the loop of \<open>move_to\<close> still has to emit.\<close>

definition remaining :: "int \<Rightarrow> int \<Rightarrow> loop_state \<Rightarrow> nat" where
  "remaining x_steps z_steps st = (case st of (err, x, z, tr) \<Rightarrow> nat (x_steps - x) + nat (z_steps - z))"

section \<open>Example rigs\<close>

text \<open>
  A configuration that leaves every optional key out but the motor map, and the same
  with a coarse Z calibration (one step every ten millimetres). Three environments:
  no hardware; a kit with two steppers, on which channel 3 does not exist, so that
  \<open>z_axis\<close> is not resolved; and a kit with three steppers whose second \<open>onestep\<close>
  call raises. The controllers are the ones construction gives in each.
\<close>

definition cfg_default :: config where
  "cfg_default =
     \<lparr> cfg_step_style = None, cfg_step_delay = None,
       cfg_calibration = Some \<lparr> cal_steps_per_mm_x = None, cal_steps_per_mm_z = None \<rparr>,
       cfg_motors = Some [(''x_left'', 1), (''x_right'', 2), (''z_axis'', 3)] \<rparr>"

definition cfg_coarse :: config where
  "cfg_coarse =
     \<lparr> cfg_step_style = None, cfg_step_delay = None,
       cfg_calibration = Some \<lparr> cal_steps_per_mm_x = None, cal_steps_per_mm_z = Some (1 / 10) \<rparr>,
       cfg_motors = Some [(''x_left'', 1), (''x_right'', 2), (''z_axis'', 3)] \<rparr>"

definition env_stub :: env where
  "env_stub =
     \<lparr> real_hardware = False, kit_stepper = (\<lambda>c. None), stepper_extra = (\<lambda>name. False),
       onestep_raises = (\<lambda>tr. False) \<rparr>"

definition env_kit :: env where
  "env_kit =
     \<lparr> real_hardware = True,
       kit_stepper = (\<lambda>c. if c = 1 then Some 1 else if c = 2 then Some 2 else None),
       stepper_extra = (\<lambda>name. False),
       onestep_raises = (\<lambda>tr. False) \<rparr>"

definition env_rig :: env where
  "env_rig =
     \<lparr> real_hardware = True,
       kit_stepper = (\<lambda>c. if c = 1 then Some 1 else if c = 2 then Some 2
                          else if c = 3 then Some 3 else None),
       stepper_extra = (\<lambda>name. False),
       onestep_raises = (\<lambda>tr. length (filter is_physical tr) = 2) \<rparr>"

definition mc_stub :: controller where
  "mc_stub =
     \<lparr> step_style = SINGLE, step_delay = 1 / 100, steps_per_mm_x = 80, steps_per_mm_z = 100,
       steppers = [''x_left'' \<mapsto> None, ''x_right'' \<mapsto> None, ''z_axis'' \<mapsto> None],
       pos_x = 0, pos_z = 0 \<rparr>"

definition mc_kit :: controller where
  "mc_kit =
     \<lparr> step_style = SINGLE, step_delay = 1 / 100, steps_per_mm_x = 80, steps_per_mm_z = 100,
       steppers = [''x_left'' \<mapsto> Some 1, ''x_right'' \<mapsto> Some 2, ''z_axis'' \<mapsto> None],
       pos_x = 0, pos_z = 0 \<rparr>"

definition mc_coarse :: controller where
  "mc_coarse = mc_kit\<lparr>steps_per_mm_z := 1 / 10\<rparr>"

definition mc_rig :: controller where
  "mc_rig =
     \<lparr> step_style = SINGLE, step_delay = 1 / 100, steps_per_mm_x = 80, steps_per_mm_z = 100,
       steppers = [''x_left'' \<mapsto> Some 1, ''x_right'' \<mapsto> Some 2, ''z_axis'' \<mapsto> Some 3],
       pos_x = 0, pos_z = 0 \<rparr>"

section \<open>Rounding\<close>

text \<open>
  Python's rounding is an odd function: negating the argument negates the result. In particular a
  distance and its negation have a zero step count together.
\<close>

lemma py_round_of_int: "py_round (of_int n) = n"
  by (simp add: py_round_def)

lemma py_round_minus: "py_round (- v) = - py_round v"
proof (cases "of_int \<lfloor>v\<rfloor> = v")
  case True
  then obtain n :: int where "v = of_int n" by metis
  then have "py_round v = n" "py_round (- v) = - n"
    using py_round_of_int [of n] py_round_of_int [of "- n"] by simp_all
  then show ?thesis by simp
next
  case False
  then have c: "\<lceil>v\<rceil> = \<lfloor>v\<rfloor> + 1"
    by (simp add: ceiling_altdef)
  have f: "\<lfloor>- v\<rfloor> = - \<lfloor>v\<rfloor> - 1"
    using c by (simp add: floor_minus)
  have lt: "of_int \<lfloor>v\<rfloor> < v"
    using False of_int_floor_le [of v] by linarith
  show ?thesis
    unfolding py_round_def Let_def f
    using lt by (auto simp: algebra_simps)
qed

text \<open>The step count is zero up to half a step, both ends included.\<close>

lemma py_round_zero_iff: "py_round v = 0 \<longleftrightarrow> \<bar>v\<bar> \<le> 1 / 2"
proof
  assume z: "py_round v = 0"
  have f: "of_int \<lfloor>v\<rfloor> \<le> v" "v < of_int \<lfloor>v\<rfloor> + 1" by linarith+
  from z consider "\<lfloor>v\<rfloor> = 0" "v - of_int \<lfloor>v\<rfloor> \<le> 1 / 2"
    | "\<lfloor>v\<rfloor> = - 1" "1 / 2 \<le> v - of_int \<lfloor>v\<rfloor>"
    by (auto simp: py_round_def Let_def split: if_splits)
  then show "\<bar>v\<bar> \<le> 1 / 2"
  proof cases
    case 1
    with f show ?thesis by simp
  next
    case 2
    with f show ?thesis by simp
  qed
next
  assume a: "\<bar>v\<bar> \<le> 1 / 2"
  show "py_round v = 0"
  proof (cases "0 \<le> v")
    case True
    with a have "\<lfloor>v\<rfloor> = 0" by (simp add: floor_eq_iff)
    with a True show ?thesis by (simp add: py_round_def)
  next
    case False
    with a have "\<lfloor>v\<rfloor> = - 1" by (simp add: floor_eq_iff)
    with a False show ?thesis by (auto simp: py_round_def Let_def)
  qed
qed

section \<open>What the stepping functions leave in the trace\<close>

subsection \<open>One motor step\<close>

lemma step_motor_cases:
  "step_motor e mc nm d tr = (Returned, tr @ [StubPrint nm d]) \<and>
     (\<not> real_hardware e \<or> steppers mc nm = None \<or> steppers mc nm = Some None)
   \<or> (\<exists>h. real_hardware e \<and> steppers mc nm = Some (Some h) \<and>
        step_motor e mc nm d tr =
          (if onestep_raises e (tr @ [Onestep nm h (step_style mc) d]) then Inl DriverError else Returned,
           tr @ [Onestep nm h (step_style mc) d]))"
  by (auto simp: step_motor_def Let_def split: option.splits bool.splits)

lemma step_motor_steps_of:
  "step_motor e mc nm d tr = (out, tr') \<Longrightarrow>
   steps_of name tr' = steps_of name tr + (if nm = name then 1 else 0)"
  using step_motor_cases [of e mc nm d tr]
  by (auto simp: steps_of_def split: if_splits)

lemma step_motor_sleeps:
  "step_motor e mc nm d tr = (out, tr') \<Longrightarrow> sleeps tr' = sleeps tr"
  using step_motor_cases [of e mc nm d tr]
  by (auto simp: sleeps_def split: if_splits)

lemma step_motor_error:
  "step_motor e mc nm d tr = (Inl err, tr') \<Longrightarrow> err = DriverError \<and> aborted e tr tr'"
  using step_motor_cases [of e mc nm d tr]
  by (auto simp: aborted_def split: if_splits)

lemma step_motor_no_faults:
  "no_faults e \<Longrightarrow> fst (step_motor e mc nm d tr) = Returned"
  using step_motor_cases [of e mc nm d tr]
  by (auto simp: no_faults_def)

lemma step_motor_simulated:
  "\<not> real_hardware e \<or> steppers mc nm = None \<or> steppers mc nm = Some None \<Longrightarrow>
   step_motor e mc nm d tr = (Returned, tr @ [StubPrint nm d])"
  using step_motor_cases [of e mc nm d tr] by auto

lemma aborted_append: "aborted e (tr @ mid) tr' \<Longrightarrow> aborted e tr tr'"
  unfolding aborted_def
  by (metis append.assoc append_is_Nil_conv last_appendR)

lemma aborted_raises: "aborted e tr tr' \<Longrightarrow> onestep_raises e tr'"
  by (auto simp: aborted_def)

lemma step_motor_extends:
  "step_motor e mc nm d tr = (out, tr') \<Longrightarrow> \<exists>ev. tr' = tr @ [ev]"
  using step_motor_cases [of e mc nm d tr] by auto

subsection \<open>The motors of one group\<close>

lemma step_each_extends:
  "step_each e mc names d tr = (out, tr') \<Longrightarrow> \<exists>new. tr' = tr @ new"
proof (induction names arbitrary: tr)
  case Nil
  then show ?case by simp
next
  case (Cons nm names)
  obtain o1 t1 where s1: "step_motor e mc nm d tr = (o1, t1)" by (cases "step_motor e mc nm d tr")
  then obtain ev where t1: "t1 = tr @ [ev]" using step_motor_extends by blast
  show ?case
  proof (cases o1)
    case (Inl err)
    with Cons.prems s1 t1 show ?thesis by auto
  next
    case (Inr u)
    with Cons.prems s1 have "step_each e mc names d t1 = (out, tr')" by simp
    then obtain new where "tr' = t1 @ new" using Cons.IH by blast
    with t1 show ?thesis by simp
  qed
qed

lemma step_each_steps_of:
  "step_each e mc names d tr = (Returned, tr') \<Longrightarrow>
   steps_of name tr' = steps_of name tr + count_list names name"
proof (induction names arbitrary: tr)
  case Nil
  then show ?case by simp
next
  case (Cons nm names)
  obtain o1 t1 where s1: "step_motor e mc nm d tr = (o1, t1)" by (cases "step_motor e mc nm d tr")
  show ?case
  proof (cases o1)
    case (Inl err)
    with Cons.prems s1 show ?thesis by simp
  next
    case (Inr u)
    with Cons.prems s1 have "step_each e mc names d t1 = (Returned, tr')" by simp
    then have "steps_of name tr' = steps_of name t1 + count_list names name" by (rule Cons.IH)
    with step_motor_steps_of [OF s1, of name] show ?thesis by simp
  qed
qed

lemma step_each_sleeps:
  "step_each e mc names d tr = (out, tr') \<Longrightarrow> sleeps tr' = sleeps tr"
proof (induction names arbitrary: tr)
  case Nil
  then show ?case by simp
next
  case (Cons nm names)
  obtain o1 t1 where s1: "step_motor e mc nm d tr = (o1, t1)" by (cases "step_motor e mc nm d tr")
  with Cons show ?case
    using step_motor_sleeps [OF s1] by (cases o1) auto
qed

lemma step_each_error:
  "step_each e mc names d tr = (Inl err, tr') \<Longrightarrow> err = DriverError \<and> aborted e tr tr'"
proof (induction names arbitrary: tr)
  case Nil
  then show ?case by simp
next
  case (Cons nm names)
  obtain o1 t1 where s1: "step_motor e mc nm d tr = (o1, t1)" by (cases "step_motor e mc nm d tr")
  show ?case
  proof (cases o1)
    case (Inl e1)
    with Cons.prems s1 step_motor_error [of e mc nm d tr e1 t1] show ?thesis by simp
  next
    case (Inr u)
    with Cons.prems s1 have "step_each e mc names d t1 = (Inl err, tr')" by simp
    then have "err = DriverError \<and> aborted e t1 tr'" by (rule Cons.IH)
    moreover obtain ev where "t1 = tr @ [ev]" using step_motor_extends [OF s1] by blast
    ultimately show ?thesis using aborted_append by blast
  qed
qed

lemma step_each_no_faults:
  "no_faults e \<Longrightarrow> fst (step_each e mc names d tr) = Returned"
proof (induction names arbitrary: tr)
  case Nil
  then show ?case by simp
next
  case (Cons nm names)
  obtain o1 t1 where s1: "step_motor e mc nm d tr = (o1, t1)" by (cases "step_motor e mc nm d tr")
  with step_motor_no_faults [OF Cons.prems, of mc nm d tr] have "o1 = Returned" by simp
  with s1 Cons show ?case by simp
qed

lemma step_each_simulated:
  "\<forall>nm \<in> set names. simulated e mc nm \<Longrightarrow>
   fst (step_each e mc names d tr) = Returned \<and>
   physical (snd (step_each e mc names d tr)) = physical tr"
proof (induction names arbitrary: tr)
  case Nil
  then show ?case by simp
next
  case (Cons nm names)
  from Cons.prems have "simulated e mc nm" by simp
  then have s1: "step_motor e mc nm d tr = (Returned, tr @ [StubPrint nm d])"
    unfolding simulated_def by (rule step_motor_simulated)
  from Cons.prems have "\<forall>nm \<in> set names. simulated e mc nm" by simp
  from Cons.IH [OF this, of "tr @ [StubPrint nm d]"] s1 show ?case
    by (simp add: physical_def)
qed

subsection \<open>One step group\<close>

lemma step_multiple_extends:
  "step_multiple e mc names d tr = (out, tr') \<Longrightarrow> \<exists>new. tr' = tr @ new"
proof -
  assume a: "step_multiple e mc names d tr = (out, tr')"
  obtain o1 t1 where s1: "step_each e mc names d tr = (o1, t1)" by (cases "step_each e mc names d tr")
  then obtain new where "t1 = tr @ new" using step_each_extends by blast
  with a s1 show ?thesis
    by (cases o1) (auto simp: step_multiple_def split: if_splits)
qed

lemma step_multiple_ok:
  assumes "step_multiple e mc names d tr = (Returned, tr')"
  shows "steps_of name tr' = steps_of name tr + count_list names name \<and> sleeps tr' = sleeps tr + 1"
proof -
  obtain o1 t1 where s1: "step_each e mc names d tr = (o1, t1)" by (cases "step_each e mc names d tr")
  with assms have o1: "o1 = Returned" and tr': "tr' = t1 @ [Sleep (step_delay mc)]"
    by (cases o1; auto simp: step_multiple_def split: if_splits)+
  from s1 o1 have "steps_of name t1 = steps_of name tr + count_list names name"
    using step_each_steps_of by blast
  with tr' have "steps_of name tr' = steps_of name tr + count_list names name"
    by (simp add: steps_of_def)
  moreover from step_each_sleeps [OF s1] tr' have "sleeps tr' = sleeps tr + 1"
    by (simp add: sleeps_def)
  ultimately show ?thesis by simp
qed

lemma step_multiple_error:
  assumes "step_multiple e mc names d tr = (Inl err, tr')"
  shows "sleeps tr' = sleeps tr \<and>
    (err = DriverError \<and> aborted e tr tr' \<or> err = ValueError \<and> step_delay mc < 0)"
proof -
  obtain o1 t1 where s1: "step_each e mc names d tr = (o1, t1)" by (cases "step_each e mc names d tr")
  with assms have tr': "tr' = t1"
    by (cases o1) (auto simp: step_multiple_def split: if_splits)
  with step_each_sleeps [OF s1] have sl: "sleeps tr' = sleeps tr" by simp
  have "err = DriverError \<and> aborted e tr tr' \<or> err = ValueError \<and> step_delay mc < 0"
  proof (cases o1)
    case (Inl e1)
    with assms s1 have "e1 = err" by (simp add: step_multiple_def)
    with Inl s1 tr' step_each_error [of e mc names d tr err t1] show ?thesis by simp
  next
    case (Inr u)
    with assms s1 show ?thesis by (auto simp: step_multiple_def split: if_splits)
  qed
  with sl show ?thesis by simp
qed

lemma step_multiple_no_faults:
  "no_faults e \<Longrightarrow> 0 \<le> step_delay mc \<Longrightarrow> fst (step_multiple e mc names d tr) = Returned"
  using step_each_no_faults [of e mc names d tr]
  by (cases "step_each e mc names d tr") (auto simp: step_multiple_def)

lemma step_multiple_simulated:
  "\<forall>nm \<in> set names. simulated e mc nm \<Longrightarrow> 0 \<le> step_delay mc \<Longrightarrow>
   fst (step_multiple e mc names d tr) = Returned \<and>
   physical (snd (step_multiple e mc names d tr)) = physical tr"
  using step_each_simulated [of names e mc d tr]
  by (cases "step_each e mc names d tr") (auto simp: step_multiple_def physical_def)

subsection \<open>A run of step groups\<close>

lemma step_groups_ok:
  "step_groups e mc names d n tr = (Returned, tr') \<Longrightarrow>
   steps_of name tr' = steps_of name tr + n * count_list names name \<and> sleeps tr' = sleeps tr + n"
proof (induction n arbitrary: tr)
  case 0
  then show ?case by simp
next
  case (Suc n)
  obtain o1 t1 where s1: "step_multiple e mc names d tr = (o1, t1)"
    by (cases "step_multiple e mc names d tr")
  show ?case
  proof (cases o1)
    case (Inl err)
    with Suc.prems s1 show ?thesis by simp
  next
    case (Inr u)
    with Suc.prems s1 have "step_groups e mc names d n t1 = (Returned, tr')" by simp
    from Suc.IH [OF this] step_multiple_ok [of e mc names d tr t1 name] s1 Inr
    show ?thesis by simp
  qed
qed

lemma step_groups_error:
  "step_groups e mc names d n tr = (Inl err, tr') \<Longrightarrow>
   sleeps tr' < sleeps tr + n \<and>
   (err = DriverError \<and> aborted e tr tr' \<or> err = ValueError \<and> step_delay mc < 0)"
proof (induction n arbitrary: tr)
  case 0
  then show ?case by simp
next
  case (Suc n)
  obtain o1 t1 where s1: "step_multiple e mc names d tr = (o1, t1)"
    by (cases "step_multiple e mc names d tr")
  show ?case
  proof (cases o1)
    case (Inl e1)
    with Suc.prems s1 have "step_multiple e mc names d tr = (Inl err, tr')" by simp
    from step_multiple_error [OF this] show ?thesis by simp
  next
    case (Inr u)
    with Suc.prems s1 have "step_groups e mc names d n t1 = (Inl err, tr')" by simp
    from Suc.IH [OF this]
    have ih: "sleeps tr' < sleeps t1 + n"
      "err = DriverError \<and> aborted e t1 tr' \<or> err = ValueError \<and> step_delay mc < 0"
      by simp_all
    from s1 Inr have ok: "step_multiple e mc names d tr = (Returned, t1)" by simp
    obtain new where "t1 = tr @ new" using step_multiple_extends [OF ok] by blast
    with ih(2) have "err = DriverError \<and> aborted e tr tr' \<or> err = ValueError \<and> step_delay mc < 0"
      using aborted_append by blast
    with ih(1) step_multiple_ok [OF ok] show ?thesis by simp
  qed
qed

lemma step_groups_no_faults:
  "no_faults e \<Longrightarrow> 0 \<le> step_delay mc \<Longrightarrow> fst (step_groups e mc names d n tr) = Returned"
proof (induction n arbitrary: tr)
  case 0
  then show ?case by simp
next
  case (Suc n)
  from step_multiple_no_faults [OF Suc.prems, of names d tr] Suc.IH [OF Suc.prems]
  show ?case by (cases "step_multiple e mc names d tr") simp
qed

lemma step_groups_simulated:
  "\<forall>nm \<in> set names. simulated e mc nm \<Longrightarrow> 0 \<le> step_delay mc \<Longrightarrow>
   fst (step_groups e mc names d n tr) = Returned \<and>
   physical (snd (step_groups e mc names d n tr)) = physical tr"
proof (induction n arbitrary: tr)
  case 0
  then show ?case by simp
next
  case (Suc n)
  from step_multiple_simulated [OF Suc.prems, of d tr] Suc.IH [OF Suc.prems]
  show ?case by (cases "step_multiple e mc names d tr") simp
qed

text \<open>A run of at least one group that returns has made driver calls.\<close>

lemma steps_of_driver_calls:
  "steps_of name tr = length (filter (is_step_of name) (driver_calls tr))"
proof -
  have "filter (is_step_of name) (filter is_driver_call tr) = filter (is_step_of name) tr"
    by (induction tr) (auto elim: is_step_of.elims)
  then show ?thesis by (simp add: steps_of_def driver_calls_def)
qed

lemma step_groups_calls:
  assumes "step_groups e mc (nm # names) d n tr = (Returned, tr')" and "0 < n"
  shows "driver_calls tr' \<noteq> driver_calls tr"
proof
  assume "driver_calls tr' = driver_calls tr"
  then have "steps_of nm tr' = steps_of nm tr"
    by (simp add: steps_of_driver_calls)
  moreover from step_groups_ok [OF assms(1), of nm]
  have "steps_of nm tr' = steps_of nm tr + n * count_list (nm # names) nm" by simp
  ultimately show False using assms(2) by simp
qed

section \<open>The interleaving loop\<close>

lemma emitted_refl: "emitted tr tr 0 0"
  by (simp add: emitted_def)

lemma emitted_trans:
  "emitted tr t1 a b \<Longrightarrow> emitted t1 tr' c d \<Longrightarrow> emitted tr tr' (a + c) (b + d)"
  by (simp add: emitted_def)

lemma x_group_emitted:
  "step_multiple e mc [''x_left'', ''x_right''] d tr = (Returned, tr') \<Longrightarrow> emitted tr tr' 1 0"
  using step_multiple_ok [of e mc "[''x_left'', ''x_right'']" d tr tr']
  by (simp add: emitted_def)

lemma z_group_emitted:
  "step_multiple e mc [''z_axis''] d tr = (Returned, tr') \<Longrightarrow> emitted tr tr' 0 1"
  using step_multiple_ok [of e mc "[''z_axis'']" d tr tr']
  by (simp add: emitted_def)

text \<open>
  On the line, and before the end, one of the two guards of the loop body holds. The
  two cases with one axis finished need the value of the accumulator.
\<close>

lemma on_line_start: "0 \<le> xs \<Longrightarrow> 0 \<le> zs \<Longrightarrow> on_line xs zs (xs - zs, 0, 0, tr)"
  by (simp add: on_line_def)

lemma branch_fires:
  assumes "on_line xs zs (err, x, z, tr)" and "x < xs \<or> z < zs"
  shows "(x < xs \<and> err * 2 > - zs) \<or> (z < zs \<and> err * 2 < xs)"
proof -
  from assms(1) have b: "0 \<le> x" "x \<le> xs" "0 \<le> z" "z \<le> zs"
    and e: "err = xs * (1 + z) - zs * (1 + x)"
    by (simp_all add: on_line_def)
  show ?thesis
  proof (cases "x < xs")
    case xlt: True
    show ?thesis
    proof (cases "z < zs")
      case True
      with xlt b show ?thesis by linarith
    next
      case False
      with b have "z = zs" by simp
      with e have "err = xs + zs * (xs - 1 - x)" by (simp add: algebra_simps)
      moreover from xlt b have "0 \<le> zs * (xs - 1 - x)" by simp
      ultimately show ?thesis using xlt b by linarith
    qed
  next
    case False
    with b assms(2) have "x = xs" and zlt: "z < zs" by simp_all
    with e have "err = - (xs * (zs - 1 - z)) - zs" by (simp add: algebra_simps)
    moreover from zlt b \<open>x = xs\<close> have "0 \<le> xs * (zs - 1 - z)" by simp
    ultimately show ?thesis using zlt b by linarith
  qed
qed

lemma x_branch_ok:
  assumes "x_branch e mc sx xs zs e2 (err, x, z, tr) = (Returned, st')"
  shows "\<exists>tr'. (if x < xs \<and> e2 > - zs
                then st' = (err - zs, x + 1, z, tr') \<and> emitted tr tr' 1 0
                else st' = (err, x, z, tr') \<and> tr' = tr) \<and> (\<exists>new. tr' = tr @ new)"
proof (cases "x < xs \<and> e2 > - zs")
  case True
  obtain o1 t1 where s1: "step_multiple e mc [''x_left'', ''x_right''] sx tr = (o1, t1)"
    by (cases "step_multiple e mc [''x_left'', ''x_right''] sx tr")
  with assms True have "o1 = Returned" and "st' = (err - zs, x + 1, z, t1)"
    by (cases o1; simp add: x_branch_def)+
  with s1 True x_group_emitted [of e mc sx tr t1] step_multiple_extends [OF s1]
  show ?thesis by auto
next
  case False
  with assms show ?thesis by (auto simp: x_branch_def)
qed

lemma z_branch_ok:
  assumes "z_branch e mc sz xs zs e2 (err, x, z, tr) = (Returned, st')"
  shows "\<exists>tr'. (if z < zs \<and> e2 < xs
                then st' = (err + xs, x, z + 1, tr') \<and> emitted tr tr' 0 1
                else st' = (err, x, z, tr') \<and> tr' = tr) \<and> (\<exists>new. tr' = tr @ new)"
proof (cases "z < zs \<and> e2 < xs")
  case True
  obtain o1 t1 where s1: "step_multiple e mc [''z_axis''] sz tr = (o1, t1)"
    by (cases "step_multiple e mc [''z_axis''] sz tr")
  with assms True have "o1 = Returned" and "st' = (err + xs, x, z + 1, t1)"
    by (cases o1; simp add: z_branch_def)+
  with s1 True z_group_emitted [of e mc sz tr t1] step_multiple_extends [OF s1]
  show ?thesis by auto
next
  case False
  with assms show ?thesis by (auto simp: z_branch_def)
qed

lemma x_branch_error:
  assumes "x_branch e mc sx xs zs e2 (err, x, z, tr) = (Inl ex, st')"
  shows "ex = DriverError \<and> aborted e tr (snd (snd (snd st'))) \<or> ex = ValueError \<and> step_delay mc < 0"
proof (cases "x < xs \<and> e2 > - zs")
  case True
  obtain o1 t1 where s1: "step_multiple e mc [''x_left'', ''x_right''] sx tr = (o1, t1)"
    by (cases "step_multiple e mc [''x_left'', ''x_right''] sx tr")
  with assms True have "o1 = Inl ex" and "st' = (err, x, z, t1)"
    by (cases o1; simp add: x_branch_def)+
  with s1 step_multiple_error [of e mc "[''x_left'', ''x_right'']" sx tr ex t1]
  show ?thesis by simp
next
  case False
  with assms show ?thesis by (simp add: x_branch_def)
qed

lemma z_branch_error:
  assumes "z_branch e mc sz xs zs e2 (err, x, z, tr) = (Inl ex, st')"
  shows "ex = DriverError \<and> aborted e tr (snd (snd (snd st'))) \<or> ex = ValueError \<and> step_delay mc < 0"
proof (cases "z < zs \<and> e2 < xs")
  case True
  obtain o1 t1 where s1: "step_multiple e mc [''z_axis''] sz tr = (o1, t1)"
    by (cases "step_multiple e mc [''z_axis''] sz tr")
  with assms True have "o1 = Inl ex" and "st' = (err, x, z, t1)"
    by (cases o1; simp add: z_branch_def)+
  with s1 step_multiple_error [of e mc "[''z_axis'']" sz tr ex t1]
  show ?thesis by simp
next
  case False
  with assms show ?thesis by (simp add: z_branch_def)
qed

text \<open>
  One iteration that returns: which branches ran, and what they left behind.
\<close>

lemma loop_body_ok:
  assumes "loop_body e mc sx sz xs zs (err, x, z, tr) = (Returned, st')"
  shows "\<exists>tr'. st' = (err - (if x < xs \<and> err * 2 > - zs then zs else 0)
                        + (if z < zs \<and> err * 2 < xs then xs else 0),
                    x + (if x < xs \<and> err * 2 > - zs then 1 else 0),
                    z + (if z < zs \<and> err * 2 < xs then 1 else 0), tr') \<and>
               emitted tr tr' (if x < xs \<and> err * 2 > - zs then 1 else 0)
                              (if z < zs \<and> err * 2 < xs then 1 else 0) \<and>
               (\<exists>new. tr' = tr @ new)"
proof -
  obtain o1 s1 where b1: "x_branch e mc sx xs zs (err * 2) (err, x, z, tr) = (o1, s1)"
    by (cases "x_branch e mc sx xs zs (err * 2) (err, x, z, tr)")
  with assms have o1: "o1 = Returned" and b2: "z_branch e mc sz xs zs (err * 2) s1 = (Returned, st')"
    by (cases o1; simp add: loop_body_def)+
  from x_branch_ok [OF b1 [unfolded o1]] obtain t1 where
    t1: "if x < xs \<and> err * 2 > - zs
         then s1 = (err - zs, x + 1, z, t1) \<and> emitted tr t1 1 0
         else s1 = (err, x, z, t1) \<and> t1 = tr" and n1: "\<exists>new. t1 = tr @ new"
    by blast
  define err1 x1 where "err1 = err - (if x < xs \<and> err * 2 > - zs then zs else 0)"
    and "x1 = x + (if x < xs \<and> err * 2 > - zs then 1 else 0)"
  from t1 have s1: "s1 = (err1, x1, z, t1)"
    and e1: "emitted tr t1 (if x < xs \<and> err * 2 > - zs then 1 else 0) 0"
    by (auto simp: err1_def x1_def emitted_refl split: if_splits)
  from z_branch_ok [OF b2 [unfolded s1]] obtain t2 where
    t2: "if z < zs \<and> err * 2 < xs
         then st' = (err1 + xs, x1, z + 1, t2) \<and> emitted t1 t2 0 1
         else st' = (err1, x1, z, t2) \<and> t2 = t1" and n2: "\<exists>new. t2 = t1 @ new"
    by blast
  from t2 have st': "st' = (err1 + (if z < zs \<and> err * 2 < xs then xs else 0), x1,
                            z + (if z < zs \<and> err * 2 < xs then 1 else 0), t2)"
    and e2: "emitted t1 t2 0 (if z < zs \<and> err * 2 < xs then 1 else 0)"
    by (auto simp: emitted_refl split: if_splits)
  from emitted_trans [OF e1 e2] have "emitted tr t2 (if x < xs \<and> err * 2 > - zs then 1 else 0)
                              (if z < zs \<and> err * 2 < xs then 1 else 0)" by simp
  moreover from n1 n2 have "\<exists>new. t2 = tr @ new" by auto
  ultimately show ?thesis using st' by (simp add: err1_def x1_def)
qed

lemma loop_body_error:
  assumes "loop_body e mc sx sz xs zs (err, x, z, tr) = (Inl ex, st')"
  shows "ex = DriverError \<and> aborted e tr (snd (snd (snd st'))) \<or> ex = ValueError \<and> step_delay mc < 0"
proof -
  obtain o1 s1 where b1: "x_branch e mc sx xs zs (err * 2) (err, x, z, tr) = (o1, s1)"
    by (cases "x_branch e mc sx xs zs (err * 2) (err, x, z, tr)")
  show ?thesis
  proof (cases o1)
    case (Inl e1)
    with assms b1 have "e1 = ex" and "s1 = st'" by (simp_all add: loop_body_def)
    with Inl b1 x_branch_error [of e mc sx xs zs "err * 2" err x z tr ex st'] show ?thesis by simp
  next
    case (Inr u)
    with assms b1 have b2: "z_branch e mc sz xs zs (err * 2) s1 = (Inl ex, st')"
      by (simp add: loop_body_def)
    from b1 Inr have "x_branch e mc sx xs zs (err * 2) (err, x, z, tr) = (Returned, s1)" by simp
    from x_branch_ok [OF this] obtain err1 x1 z1 t1 new
      where s1: "s1 = (err1, x1, z1, t1)" and t1: "t1 = tr @ new"
      by (auto split: if_splits)
    from z_branch_error [OF b2 [unfolded s1]] t1 aborted_append [of e tr new]
    show ?thesis by auto
  qed
qed

text \<open>
  An iteration that returns keeps the state on the line and brings it closer to the end.
\<close>

lemma loop_body_progress:
  assumes line: "on_line xs zs (err, x, z, tr)" and cond: "x < xs \<or> z < zs"
    and body: "loop_body e mc sx sz xs zs (err, x, z, tr) = (Returned, st')"
  shows "on_line xs zs st' \<and> remaining xs zs st' < remaining xs zs (err, x, z, tr)"
proof -
  from loop_body_ok [OF body] obtain tr' where
    st': "st' = (err - (if x < xs \<and> err * 2 > - zs then zs else 0)
                        + (if z < zs \<and> err * 2 < xs then xs else 0),
                    x + (if x < xs \<and> err * 2 > - zs then 1 else 0),
                    z + (if z < zs \<and> err * 2 < xs then 1 else 0), tr')"
    by blast
  from branch_fires [OF line cond] line show ?thesis
    unfolding st' on_line_def remaining_def
    by (auto simp: algebra_simps)
qed

text \<open>
  The loop returns from every state on the line, by induction on the number of step
  groups that remain. If it returns normally both counters are at their targets and the
  trace has gained exactly the remaining groups; if it raises, the cause is a stepper
  call or a negative delay.
\<close>

lemma interleave_run:
  assumes "on_line xs zs (err, x, z, tr)"
  shows "\<exists>out err' x' z' tr'.
           interleave e mc sx sz xs zs (err, x, z, tr) = Some (out, err', x', z', tr') \<and>
           (out = Returned \<longrightarrow>
              x' = xs \<and> z' = zs \<and> emitted tr tr' (nat (xs - x)) (nat (zs - z))) \<and>
           (\<forall>ex. out = Inl ex \<longrightarrow>
              ex = DriverError \<and> aborted e tr tr' \<or> ex = ValueError \<and> step_delay mc < 0)"
  using assms
proof (induction "remaining xs zs (err, x, z, tr)" arbitrary: err x z tr rule: less_induct)
  case less
  note line = less.prems
  then have b: "0 \<le> x" "x \<le> xs" "0 \<le> z" "z \<le> zs" by (simp_all add: on_line_def)
  show ?case
  proof (cases "x < xs \<or> z < zs")
    case False
    then have "interleave e mc sx sz xs zs (err, x, z, tr) = Some (Returned, err, x, z, tr)"
      by (simp add: interleave.simps [of e mc sx sz xs zs "(err, x, z, tr)"])
    moreover from False b have "x = xs" "z = zs" by simp_all
    ultimately show ?thesis by (simp add: emitted_refl)
  next
    case cond: True
    obtain o1 s1 where body: "loop_body e mc sx sz xs zs (err, x, z, tr) = (o1, s1)"
      by (cases "loop_body e mc sx sz xs zs (err, x, z, tr)")
    show ?thesis
    proof (cases o1)
      case (Inl ex)
      with body cond have
        "interleave e mc sx sz xs zs (err, x, z, tr) = Some (Inl ex, s1)"
        by (simp add: interleave.simps [of e mc sx sz xs zs "(err, x, z, tr)"])
      moreover from body Inl loop_body_error [of e mc sx sz xs zs err x z tr ex s1]
      have "ex = DriverError \<and> aborted e tr (snd (snd (snd s1))) \<or> ex = ValueError \<and> step_delay mc < 0"
        by simp
      ultimately show ?thesis by (cases s1) auto
    next
      case (Inr u)
      with body have ok: "loop_body e mc sx sz xs zs (err, x, z, tr) = (Returned, s1)" by simp
      from loop_body_ok [OF ok] obtain t1 err1 x1 z1 new where
        s1: "s1 = (err1, x1, z1, t1)"
        and x1: "x1 = x + (if x < xs \<and> err * 2 > - zs then 1 else 0)"
        and z1: "z1 = z + (if z < zs \<and> err * 2 < xs then 1 else 0)"
        and em: "emitted tr t1 (if x < xs \<and> err * 2 > - zs then 1 else 0)
                              (if z < zs \<and> err * 2 < xs then 1 else 0)"
        and t1: "t1 = tr @ new"
        by blast
      from loop_body_progress [OF line cond ok] s1
      have line1: "on_line xs zs (err1, x1, z1, t1)"
        and less1: "remaining xs zs (err1, x1, z1, t1) < remaining xs zs (err, x, z, tr)"
        by simp_all
      from less.hyps [OF less1 line1] obtain out err' x' z' tr' where
        run: "interleave e mc sx sz xs zs (err1, x1, z1, t1) = Some (out, err', x', z', tr')"
        and fin: "out = Returned \<longrightarrow> x' = xs \<and> z' = zs \<and> emitted t1 tr' (nat (xs - x1)) (nat (zs - z1))"
        and bad: "\<forall>ex. out = Inl ex \<longrightarrow>
              ex = DriverError \<and> aborted e t1 tr' \<or> ex = ValueError \<and> step_delay mc < 0"
        by blast
      from ok cond run s1 have
        "interleave e mc sx sz xs zs (err, x, z, tr) = Some (out, err', x', z', tr')"
        by (simp add: interleave.simps [of e mc sx sz xs zs "(err, x, z, tr)"])
      moreover have "emitted tr tr' (nat (xs - x)) (nat (zs - z))" if "out = Returned"
      proof -
        from that fin have "emitted t1 tr' (nat (xs - x1)) (nat (zs - z1))" by simp
        from emitted_trans [OF em this]
        have "emitted tr tr'
                ((if x < xs \<and> err * 2 > - zs then 1 else 0) + nat (xs - x1))
                ((if z < zs \<and> err * 2 < xs then 1 else 0) + nat (zs - z1))" .
        moreover from b x1
        have "(if x < xs \<and> err * 2 > - zs then 1 else 0) + nat (xs - x1) = nat (xs - x)"
          by (cases "x < xs \<and> err * 2 > - zs") (simp_all, linarith)
        moreover from b z1
        have "(if z < zs \<and> err * 2 < xs then 1 else 0) + nat (zs - z1) = nat (zs - z)"
          by (cases "z < zs \<and> err * 2 < xs") (simp_all, linarith)
        ultimately show ?thesis by simp
      qed
      moreover have "ex = DriverError \<and> aborted e tr tr' \<or> ex = ValueError \<and> step_delay mc < 0"
        if "out = Inl ex" for ex
        using that bad t1 aborted_append [of e tr new tr'] by auto
      ultimately show ?thesis using fin by auto
    qed
  qed
qed

section \<open>Moves\<close>

lemma move_x_cases:
  "move_x e mm (mc, tr) = (out, mc', tr') \<Longrightarrow>
   (py_round (mm * steps_per_mm_x mc) = 0 \<and> out = Returned \<and> mc' = mc \<and> tr' = tr) \<or>
   (py_round (mm * steps_per_mm_x mc) \<noteq> 0 \<and>
    step_groups e mc [''x_left'', ''x_right''] (direction_of (py_round (mm * steps_per_mm_x mc)))
      (nat \<bar>py_round (mm * steps_per_mm_x mc)\<bar>) tr = (out, tr') \<and>
    mc' = (if out = Returned then mc\<lparr>pos_x := pos_x mc + mm\<rparr> else mc))"
  by (auto simp: move_x_def Let_def split: if_splits prod.splits sum.splits)

lemma move_z_cases:
  "move_z e mm (mc, tr) = (out, mc', tr') \<Longrightarrow>
   (py_round (mm * steps_per_mm_z mc) = 0 \<and> out = Returned \<and> mc' = mc \<and> tr' = tr) \<or>
   (py_round (mm * steps_per_mm_z mc) \<noteq> 0 \<and>
    step_groups e mc [''z_axis''] (direction_of (py_round (mm * steps_per_mm_z mc)))
      (nat \<bar>py_round (mm * steps_per_mm_z mc)\<bar>) tr = (out, tr') \<and>
    mc' = (if out = Returned then mc\<lparr>pos_z := pos_z mc + mm\<rparr> else mc))"
  by (auto simp: move_z_def Let_def split: if_splits prod.splits sum.splits)

lemma move_x_no_faults:
  "no_faults e \<Longrightarrow> 0 \<le> step_delay mc \<Longrightarrow> fst (move_x e mm (mc, tr)) = Returned"
  using step_groups_no_faults [of e mc "[''x_left'', ''x_right'']"
      "direction_of (py_round (mm * steps_per_mm_x mc))" "nat \<bar>py_round (mm * steps_per_mm_x mc)\<bar>" tr]
  by (auto simp: move_x_def Let_def split: prod.splits sum.splits)

lemma move_z_no_faults:
  "no_faults e \<Longrightarrow> 0 \<le> step_delay mc \<Longrightarrow> fst (move_z e mm (mc, tr)) = Returned"
  using step_groups_no_faults [of e mc "[''z_axis'']"
      "direction_of (py_round (mm * steps_per_mm_z mc))" "nat \<bar>py_round (mm * steps_per_mm_z mc)\<bar>" tr]
  by (auto simp: move_z_def Let_def split: prod.splits sum.splits)

lemma move_z_simulated:
  assumes "simulated e mc ''z_axis''" and "0 \<le> step_delay mc"
  shows "\<exists>tr'. move_z e mm (mc, tr) =
           (Returned, (if py_round (mm * steps_per_mm_z mc) = 0 then mc
                       else mc\<lparr>pos_z := pos_z mc + mm\<rparr>), tr') \<and>
         physical tr' = physical tr"
proof -
  obtain out mc' tr' where run: "move_z e mm (mc, tr) = (out, mc', tr')"
    by (cases "move_z e mm (mc, tr)") auto
  from assms(1) have all: "\<forall>nm \<in> set [''z_axis'']. simulated e mc nm" by simp
  from move_z_cases [OF run] step_groups_simulated [OF all assms(2), of
      "direction_of (py_round (mm * steps_per_mm_z mc))" "nat \<bar>py_round (mm * steps_per_mm_z mc)\<bar>" tr]
  have "out = Returned \<and> physical tr' = physical tr \<and>
        mc' = (if py_round (mm * steps_per_mm_z mc) = 0 then mc else mc\<lparr>pos_z := pos_z mc + mm\<rparr>)"
    by auto
  with run show ?thesis by simp
qed

lemma move_to_run:
  "\<exists>out tr'.
     move_to e x_mm z_mm (mc, tr) =
       Some (out, (if out = Returned then mc\<lparr>pos_x := x_mm, pos_z := z_mm\<rparr> else mc), tr') \<and>
     (out = Returned \<longrightarrow>
        emitted tr tr' (nat \<bar>py_round ((x_mm - pos_x mc) * steps_per_mm_x mc)\<bar>)
                       (nat \<bar>py_round ((z_mm - pos_z mc) * steps_per_mm_z mc)\<bar>)) \<and>
     (\<forall>ex. out = Inl ex \<longrightarrow>
        ex = DriverError \<and> aborted e tr tr' \<or> ex = ValueError \<and> step_delay mc < 0)"
proof -
  define xs zs where "xs = \<bar>py_round ((x_mm - pos_x mc) * steps_per_mm_x mc)\<bar>"
    and "zs = \<bar>py_round ((z_mm - pos_z mc) * steps_per_mm_z mc)\<bar>"
  define sx sz where "sx = direction_of (py_round ((x_mm - pos_x mc) * steps_per_mm_x mc))"
    and "sz = direction_of (py_round ((z_mm - pos_z mc) * steps_per_mm_z mc))"
  have "on_line xs zs (xs - zs, 0, 0, tr)"
    by (rule on_line_start) (simp_all add: xs_def zs_def)
  from interleave_run [OF this, of e mc sx sz] obtain out err' x' z' tr' where
    run: "interleave e mc sx sz xs zs (xs - zs, 0, 0, tr) = Some (out, err', x', z', tr')"
    and fin: "out = Returned \<longrightarrow> x' = xs \<and> z' = zs \<and> emitted tr tr' (nat (xs - 0)) (nat (zs - 0))"
    and bad: "\<forall>ex. out = Inl ex \<longrightarrow>
              ex = DriverError \<and> aborted e tr tr' \<or> ex = ValueError \<and> step_delay mc < 0"
    by blast
  have "move_to e x_mm z_mm (mc, tr) =
       Some (out, (if out = Returned then mc\<lparr>pos_x := x_mm, pos_z := z_mm\<rparr> else mc), tr')"
    using run unfolding xs_def zs_def sx_def sz_def
    by (cases out) (simp_all add: move_to_def Let_def)
  with fin bad show ?thesis
    unfolding xs_def zs_def by auto
qed

subsection \<open>The stepper map is never written\<close>

lemma move_x_steppers: "steppers (fst (snd (move_x e mm (mc, tr)))) = steppers mc"
  by (cases "move_x e mm (mc, tr)") (auto dest!: move_x_cases)

lemma move_z_steppers: "steppers (fst (snd (move_z e mm (mc, tr)))) = steppers mc"
  by (cases "move_z e mm (mc, tr)") (auto dest!: move_z_cases)

lemma move_to_steppers:
  "move_to e x_mm z_mm (mc, tr) = Some r \<Longrightarrow> steppers (fst (snd r)) = steppers mc"
  using move_to_run [of e x_mm z_mm mc tr] by auto

lemma home_steppers: "steppers (fst (home (mc, tr))) = steppers mc"
  by (simp add: home_def update_position_def)

subsection \<open>Construction\<close>

lemma init_steppers_other:
  "name \<notin> fst ` set motors \<Longrightarrow> init_steppers e motors m name = m name"
  by (induction motors arbitrary: m) auto

lemma init_steppers_bound:
  "distinct (map fst motors) \<Longrightarrow> (name, channel) \<in> set motors \<Longrightarrow>
   init_steppers e motors m name = Some (resolve e channel)"
proof (induction motors arbitrary: m)
  case Nil
  then show ?case by simp
next
  case (Cons p motors)
  obtain n c where p: "p = (n, c)" by (cases p)
  show ?case
  proof (cases "(name, channel) = p")
    case True
    with p Cons.prems have "name \<notin> fst ` set motors" by auto
    with True p show ?thesis by (simp add: init_steppers_other)
  next
    case False
    with Cons.prems have "(name, channel) \<in> set motors" "distinct (map fst motors)" by auto
    with Cons.IH p show ?thesis by simp
  qed
qed

lemma init_kit: "init env_kit cfg_default = Inr mc_kit"
  by (simp add: init_def cfg_default_def env_kit_def mc_kit_def stepper_attr_def
      get_default_def resolve_def)

lemma init_stub: "init env_stub cfg_default = Inr mc_stub"
  by (simp add: init_def cfg_default_def env_stub_def mc_stub_def stepper_attr_def
      get_default_def resolve_def)

lemma init_rig: "init env_rig cfg_default = Inr mc_rig"
  by (simp add: init_def cfg_default_def env_rig_def mc_rig_def stepper_attr_def
      get_default_def resolve_def)

lemma init_coarse: "init env_kit cfg_coarse = Inr mc_coarse"
  by (simp add: init_def cfg_coarse_def env_kit_def mc_kit_def mc_coarse_def stepper_attr_def
      get_default_def resolve_def)

subsection \<open>Runs of the example rigs\<close>

lemma no_faults_stub: "no_faults env_stub"
  by (simp add: no_faults_def env_stub_def)

lemma move_x_stub_forth:
  "move_x env_stub (3 / 250) (mc_stub, []) =
     (Returned, mc_stub\<lparr>pos_x := 3 / 250\<rparr>,
      [StubPrint ''x_left'' FORWARD, StubPrint ''x_right'' FORWARD, Sleep (1 / 100)])"
  by (simp add: move_x_def mc_stub_def env_stub_def py_round_def direction_of_def
      step_multiple_def step_motor_def)

lemma move_x_stub_back:
  "move_x env_stub (- (3 / 250)) (mc_stub\<lparr>pos_x := 3 / 250\<rparr>, tr) =
     (Returned, mc_stub\<lparr>pos_x := 0\<rparr>,
      tr @ [StubPrint ''x_left'' BACKWARD, StubPrint ''x_right'' BACKWARD, Sleep (1 / 100)])"
  by (simp add: move_x_def mc_stub_def env_stub_def py_round_def direction_of_def
      step_multiple_def step_motor_def)

lemma move_z_stub_forth:
  "move_z env_stub (3 / 250) (mc_stub, []) =
     (Returned, mc_stub\<lparr>pos_z := 3 / 250\<rparr>, [StubPrint ''z_axis'' FORWARD, Sleep (1 / 100)])"
  by (simp add: move_z_def mc_stub_def env_stub_def py_round_def direction_of_def
      step_multiple_def step_motor_def)

lemma interleave_stub_run:
  "interleave env_stub mc_stub FORWARD FORWARD 5 2 (3, 0, 0, []) =
     Some (Returned, 3, 5, 2,
       [StubPrint ''x_left'' FORWARD, StubPrint ''x_right'' FORWARD, Sleep (1 / 100),
        StubPrint ''x_left'' FORWARD, StubPrint ''x_right'' FORWARD, Sleep (1 / 100),
        StubPrint ''z_axis'' FORWARD, Sleep (1 / 100),
        StubPrint ''x_left'' FORWARD, StubPrint ''x_right'' FORWARD, Sleep (1 / 100),
        StubPrint ''x_left'' FORWARD, StubPrint ''x_right'' FORWARD, Sleep (1 / 100),
        StubPrint ''z_axis'' FORWARD, Sleep (1 / 100),
        StubPrint ''x_left'' FORWARD, StubPrint ''x_right'' FORWARD, Sleep (1 / 100)])"
  by (simp add: mc_stub_def env_stub_def interleave.simps loop_body_def x_branch_def z_branch_def
      step_multiple_def step_motor_def)

lemma move_x_rig_run:
  "move_x env_rig (1 / 40) (mc_rig, []) =
     (Inl DriverError, mc_rig,
      [Onestep ''x_left'' 1 SINGLE FORWARD, Onestep ''x_right'' 2 SINGLE FORWARD])"
  by (simp add: move_x_def mc_rig_def env_rig_def py_round_def direction_of_def
      step_multiple_def step_motor_def eval_nat_numeral)

lemma move_z_rig_run:
  "move_z env_rig (1 / 50) (mc_rig, []) =
     (Inl DriverError, mc_rig,
      [Onestep ''z_axis'' 3 SINGLE FORWARD, Sleep (1 / 100), Onestep ''z_axis'' 3 SINGLE FORWARD])"
  by (simp add: move_z_def mc_rig_def env_rig_def py_round_def direction_of_def
      step_multiple_def step_motor_def eval_nat_numeral)

lemma move_to_rig_run:
  "move_to env_rig (1 / 40) (1 / 100) (mc_rig, []) =
     Some (Inl DriverError, mc_rig,
      [Onestep ''x_left'' 1 SINGLE FORWARD, Onestep ''x_right'' 2 SINGLE FORWARD])"
  by (simp add: move_to_def mc_rig_def env_rig_def py_round_def direction_of_def
      interleave.simps loop_body_def x_branch_def z_branch_def
      step_multiple_def step_motor_def)

section \<open>The properties of the specification\<close>

text \<open>
  \<^bold>\<open>C1.\<close> A single-axis move that returns and has issued at least one driver call has
  added exactly the requested distance \<open>mm\<close> to the coordinate of its axis and has
  changed nothing else of the controller, whatever the calibration. The requested
  distance is in general not the distance the steps cover,
  \<open>py_round (mm * steps_per_mm) / steps_per_mm\<close>. Such moves are the ones with a step
  count that is not zero: without a raising stepper call and with a delay that is not
  negative, each of them returns, with driver calls made and the distance added.
\<close>

theorem move_axis_adds_requested_distance:
  "(move_x e mm (mc, tr) = (Returned, mc', tr') \<and> driver_calls tr' \<noteq> driver_calls tr
      \<longrightarrow> mc' = mc\<lparr>pos_x := pos_x mc + mm\<rparr>) \<and>
   (move_z e mm (mc, tr) = (Returned, mc'', tr'') \<and> driver_calls tr'' \<noteq> driver_calls tr
      \<longrightarrow> mc'' = mc\<lparr>pos_z := pos_z mc + mm\<rparr>) \<and>
   (no_faults e \<and> 0 \<le> step_delay mc \<and> py_round (mm * steps_per_mm_x mc) \<noteq> 0 \<longrightarrow>
      (\<exists>t. move_x e mm (mc, tr) = (Returned, mc\<lparr>pos_x := pos_x mc + mm\<rparr>, t) \<and>
           driver_calls t \<noteq> driver_calls tr)) \<and>
   (no_faults e \<and> 0 \<le> step_delay mc \<and> py_round (mm * steps_per_mm_z mc) \<noteq> 0 \<longrightarrow>
      (\<exists>t. move_z e mm (mc, tr) = (Returned, mc\<lparr>pos_z := pos_z mc + mm\<rparr>, t) \<and>
           driver_calls t \<noteq> driver_calls tr))"
proof (intro conjI impI)
  assume "move_x e mm (mc, tr) = (Returned, mc', tr') \<and> driver_calls tr' \<noteq> driver_calls tr"
  with move_x_cases [of e mm mc tr Returned mc' tr'] show "mc' = mc\<lparr>pos_x := pos_x mc + mm\<rparr>"
    by auto
next
  assume "move_z e mm (mc, tr) = (Returned, mc'', tr'') \<and> driver_calls tr'' \<noteq> driver_calls tr"
  with move_z_cases [of e mm mc tr Returned mc'' tr''] show "mc'' = mc\<lparr>pos_z := pos_z mc + mm\<rparr>"
    by auto
next
  assume a: "no_faults e \<and> 0 \<le> step_delay mc \<and> py_round (mm * steps_per_mm_x mc) \<noteq> 0"
  obtain out m t where run: "move_x e mm (mc, tr) = (out, m, t)"
    by (cases "move_x e mm (mc, tr)") auto
  with a move_x_no_faults [of e mc mm tr] have out: "out = Returned" by simp
  with a move_x_cases [OF run] have
    g: "step_groups e mc [''x_left'', ''x_right''] (direction_of (py_round (mm * steps_per_mm_x mc)))
          (nat \<bar>py_round (mm * steps_per_mm_x mc)\<bar>) tr = (Returned, t)"
    and m: "m = mc\<lparr>pos_x := pos_x mc + mm\<rparr>"
    by simp_all
  from a have "0 < nat \<bar>py_round (mm * steps_per_mm_x mc)\<bar>" by simp
  from step_groups_calls [OF g this] run out m
  show "\<exists>t. move_x e mm (mc, tr) = (Returned, mc\<lparr>pos_x := pos_x mc + mm\<rparr>, t) \<and>
           driver_calls t \<noteq> driver_calls tr"
    by simp
next
  assume a: "no_faults e \<and> 0 \<le> step_delay mc \<and> py_round (mm * steps_per_mm_z mc) \<noteq> 0"
  obtain out m t where run: "move_z e mm (mc, tr) = (out, m, t)"
    by (cases "move_z e mm (mc, tr)") auto
  with a move_z_no_faults [of e mc mm tr] have out: "out = Returned" by simp
  with a move_z_cases [OF run] have
    g: "step_groups e mc [''z_axis''] (direction_of (py_round (mm * steps_per_mm_z mc)))
          (nat \<bar>py_round (mm * steps_per_mm_z mc)\<bar>) tr = (Returned, t)"
    and m: "m = mc\<lparr>pos_z := pos_z mc + mm\<rparr>"
    by simp_all
  from a have "0 < nat \<bar>py_round (mm * steps_per_mm_z mc)\<bar>" by simp
  from step_groups_calls [OF g this] run out m
  show "\<exists>t. move_z e mm (mc, tr) = (Returned, mc\<lparr>pos_z := pos_z mc + mm\<rparr>, t) \<and>
           driver_calls t \<noteq> driver_calls tr"
    by simp
qed

theorem move_axis_adds_requested_distance_witness:
  "move_x env_stub (3 / 250) (mc_stub, []) =
     (Returned, mc_stub\<lparr>pos_x := 3 / 250\<rparr>,
      [StubPrint ''x_left'' FORWARD, StubPrint ''x_right'' FORWARD, Sleep (1 / 100)]) \<and>
   driver_calls [StubPrint ''x_left'' FORWARD, StubPrint ''x_right'' FORWARD, Sleep (1 / 100)]
     \<noteq> driver_calls [] \<and>
   mc_stub\<lparr>pos_x := 3 / 250\<rparr> = mc_stub\<lparr>pos_x := pos_x mc_stub + 3 / 250\<rparr> \<and>
   3 / 250 \<noteq> real_of_int (py_round (3 / 250 * steps_per_mm_x mc_stub)) / steps_per_mm_x mc_stub \<and>
   move_z env_stub (3 / 250) (mc_stub, []) =
     (Returned, mc_stub\<lparr>pos_z := 3 / 250\<rparr>, [StubPrint ''z_axis'' FORWARD, Sleep (1 / 100)]) \<and>
   driver_calls [StubPrint ''z_axis'' FORWARD, Sleep (1 / 100)] \<noteq> driver_calls [] \<and>
   mc_stub\<lparr>pos_z := 3 / 250\<rparr> = mc_stub\<lparr>pos_z := pos_z mc_stub + 3 / 250\<rparr> \<and>
   3 / 250 \<noteq> real_of_int (py_round (3 / 250 * steps_per_mm_z mc_stub)) / steps_per_mm_z mc_stub \<and>
   no_faults env_stub \<and> 0 \<le> step_delay mc_stub \<and>
   py_round (3 / 250 * steps_per_mm_x mc_stub) \<noteq> 0 \<and>
   py_round (3 / 250 * steps_per_mm_z mc_stub) \<noteq> 0"
proof -
  have dx: "driver_calls [StubPrint ''x_left'' FORWARD, StubPrint ''x_right'' FORWARD, Sleep (1 / 100)]
     \<noteq> driver_calls []"
    and dz: "driver_calls [StubPrint ''z_axis'' FORWARD, Sleep (1 / 100)] \<noteq> driver_calls []"
    by (simp_all add: driver_calls_def)
  have q: "3 / 250 \<noteq> real_of_int (py_round (3 / 250 * steps_per_mm_x mc_stub)) / steps_per_mm_x mc_stub"
    "3 / 250 \<noteq> real_of_int (py_round (3 / 250 * steps_per_mm_z mc_stub)) / steps_per_mm_z mc_stub"
    "0 \<le> step_delay mc_stub"
    "py_round (3 / 250 * steps_per_mm_x mc_stub) \<noteq> 0"
    "py_round (3 / 250 * steps_per_mm_z mc_stub) \<noteq> 0"
    by (simp_all add: mc_stub_def py_round_def)
  from move_axis_adds_requested_distance [of env_stub "3 / 250" mc_stub "[]"
      "mc_stub\<lparr>pos_x := 3 / 250\<rparr>"
      "[StubPrint ''x_left'' FORWARD, StubPrint ''x_right'' FORWARD, Sleep (1 / 100)]"
      "mc_stub\<lparr>pos_z := 3 / 250\<rparr>" "[StubPrint ''z_axis'' FORWARD, Sleep (1 / 100)]"]
    move_x_stub_forth move_z_stub_forth dx dz q no_faults_stub
  show ?thesis by simp
qed

text \<open>
  \<^bold>\<open>C2.\<close> \<open>move_to\<close> always returns. When it returns normally the trace has gained
  exactly \<open>\<bar>py_round ((x_mm - pos_x) * steps_per_mm_x)\<bar>\<close> X step groups and
  \<open>\<bar>py_round ((z_mm - pos_z) * steps_per_mm_z)\<bar>\<close> Z step groups, in whatever order
  the loop interleaves them; it does return normally when no stepper call raises and the
  delay is not negative. With both deltas zero the trace is unchanged.
\<close>

theorem move_to_step_groups:
  "\<exists>out mc' tr'.
     move_to e x_mm z_mm (mc, tr) = Some (out, mc', tr') \<and>
     (out = Returned \<longrightarrow>
        emitted tr tr' (nat \<bar>py_round ((x_mm - pos_x mc) * steps_per_mm_x mc)\<bar>)
                       (nat \<bar>py_round ((z_mm - pos_z mc) * steps_per_mm_z mc)\<bar>)) \<and>
     (no_faults e \<and> 0 \<le> step_delay mc \<longrightarrow> out = Returned) \<and>
     (x_mm = pos_x mc \<and> z_mm = pos_z mc \<longrightarrow> out = Returned \<and> tr' = tr)"
proof -
  from move_to_run [of e x_mm z_mm mc tr] obtain out tr' where
    run: "move_to e x_mm z_mm (mc, tr) =
       Some (out, (if out = Returned then mc\<lparr>pos_x := x_mm, pos_z := z_mm\<rparr> else mc), tr')"
    and ok: "out = Returned \<longrightarrow>
        emitted tr tr' (nat \<bar>py_round ((x_mm - pos_x mc) * steps_per_mm_x mc)\<bar>)
                       (nat \<bar>py_round ((z_mm - pos_z mc) * steps_per_mm_z mc)\<bar>)"
    and bad: "\<forall>ex. out = Inl ex \<longrightarrow>
        ex = DriverError \<and> aborted e tr tr' \<or> ex = ValueError \<and> step_delay mc < 0"
    by blast
  have nf: "out = Returned" if "no_faults e \<and> 0 \<le> step_delay mc"
  proof (cases out)
    case (Inl ex)
    with bad that aborted_raises [of e tr tr'] show ?thesis by (auto simp: no_faults_def)
  next
    case (Inr u)
    then show ?thesis by simp
  qed
  have still: "out = Returned \<and> tr' = tr" if "x_mm = pos_x mc \<and> z_mm = pos_z mc"
  proof -
    from that have "move_to e x_mm z_mm (mc, tr) = Some (Returned, mc\<lparr>pos_x := x_mm, pos_z := z_mm\<rparr>, tr)"
      by (simp add: move_to_def py_round_def interleave.simps)
    with run show ?thesis by simp
  qed
  from run ok nf still show ?thesis by blast
qed

theorem move_to_step_groups_witness:
  "no_faults env_stub \<and> 0 \<le> step_delay mc_stub \<and>
   (\<exists>mc' tr'. move_to env_stub (1 / 16) (1 / 50) (mc_stub, []) = Some (Returned, mc', tr') \<and>
      emitted [] tr' 5 2) \<and>
   (0 = pos_x mc_stub \<and> 0 = pos_z mc_stub) \<and>
   (\<exists>mc'. move_to env_stub 0 0 (mc_stub, []) = Some (Returned, mc', []))"
proof -
  have h: "no_faults env_stub \<and> 0 \<le> step_delay mc_stub"
    by (simp add: no_faults_stub mc_stub_def)
  have r: "nat \<bar>py_round ((1 / 16 - pos_x mc_stub) * steps_per_mm_x mc_stub)\<bar> = 5"
    "nat \<bar>py_round ((1 / 50 - pos_z mc_stub) * steps_per_mm_z mc_stub)\<bar> = 2"
    by (simp_all add: mc_stub_def py_round_def)
  have z: "0 = pos_x mc_stub \<and> 0 = pos_z mc_stub"
    by (simp add: mc_stub_def)
  from move_to_step_groups [of env_stub "1 / 16" "1 / 50" mc_stub "[]"] h r
  have "\<exists>mc' tr'. move_to env_stub (1 / 16) (1 / 50) (mc_stub, []) = Some (Returned, mc', tr') \<and>
      emitted [] tr' 5 2"
    by auto
  moreover from move_to_step_groups [of env_stub 0 0 mc_stub "[]"] z
  have "\<exists>mc'. move_to env_stub 0 0 (mc_stub, []) = Some (Returned, mc', [])"
    by auto
  ultimately show ?thesis using h z by blast
qed

text \<open>
  \<^bold>\<open>C3.\<close> After a call of \<open>move_to\<close> that returns normally the position is the
  target itself, written directly, and nothing else of the controller has changed.
\<close>

theorem move_to_sets_target:
  "\<exists>out mc' tr'.
     move_to e x_mm z_mm (mc, tr) = Some (out, mc', tr') \<and>
     (out = Returned \<longrightarrow> mc' = mc\<lparr>pos_x := x_mm, pos_z := z_mm\<rparr>) \<and>
     (no_faults e \<and> 0 \<le> step_delay mc \<longrightarrow> out = Returned)"
proof -
  from move_to_run [of e x_mm z_mm mc tr] obtain out tr' where
    run: "move_to e x_mm z_mm (mc, tr) =
       Some (out, (if out = Returned then mc\<lparr>pos_x := x_mm, pos_z := z_mm\<rparr> else mc), tr')"
    and bad: "\<forall>ex. out = Inl ex \<longrightarrow>
        ex = DriverError \<and> aborted e tr tr' \<or> ex = ValueError \<and> step_delay mc < 0"
    by blast
  have "out = Returned" if "no_faults e \<and> 0 \<le> step_delay mc"
  proof (cases out)
    case (Inl ex)
    with bad that aborted_raises [of e tr tr'] show ?thesis by (auto simp: no_faults_def)
  next
    case (Inr u)
    then show ?thesis by simp
  qed
  with run show ?thesis by auto
qed

theorem move_to_sets_target_witness:
  "no_faults env_stub \<and> 0 \<le> step_delay mc_stub \<and>
   (\<exists>tr'. move_to env_stub 1 (1 / 2) (mc_stub, []) =
      Some (Returned, mc_stub\<lparr>pos_x := 1, pos_z := 1 / 2\<rparr>, tr'))"
proof -
  have h: "no_faults env_stub \<and> 0 \<le> step_delay mc_stub"
    by (simp add: no_faults_stub mc_stub_def)
  with move_to_sets_target [of env_stub 1 "1 / 2" mc_stub "[]"] show ?thesis
    by auto
qed

text \<open>
  \<^bold>\<open>C4.\<close> A single-axis move whose step count rounds to zero does nothing: it
  returns normally with the controller and the trace as they were, hence without a
  driver call, a change of position or a delay. These are the moves of at most half a
  step, in either direction.
\<close>

theorem zero_steps_is_noop:
  "(py_round (mm * steps_per_mm_x mc) = 0 \<longrightarrow> move_x e mm (mc, tr) = (Returned, mc, tr)) \<and>
   (py_round (mm * steps_per_mm_z mc) = 0 \<longrightarrow> move_z e mm (mc, tr) = (Returned, mc, tr)) \<and>
   (\<bar>mm * steps_per_mm_x mc\<bar> \<le> 1 / 2 \<longrightarrow> move_x e mm (mc, tr) = (Returned, mc, tr)) \<and>
   (\<bar>mm * steps_per_mm_z mc\<bar> \<le> 1 / 2 \<longrightarrow> move_z e mm (mc, tr) = (Returned, mc, tr))"
  by (simp add: move_x_def move_z_def py_round_zero_iff)

theorem zero_steps_is_noop_witness:
  "py_round (1 / 250 * steps_per_mm_x mc_kit) = 0 \<and>
   move_x env_kit (1 / 250) (mc_kit, []) = (Returned, mc_kit, []) \<and>
   py_round (1 / 250 * steps_per_mm_z mc_kit) = 0 \<and>
   move_z env_kit (1 / 250) (mc_kit, []) = (Returned, mc_kit, []) \<and>
   \<bar>1 / 250 * steps_per_mm_x mc_kit\<bar> \<le> 1 / 2 \<and>
   \<bar>1 / 250 * steps_per_mm_z mc_kit\<bar> \<le> 1 / 2"
proof -
  have h: "py_round (1 / 250 * steps_per_mm_x mc_kit) = 0" "py_round (1 / 250 * steps_per_mm_z mc_kit) = 0"
    "\<bar>1 / 250 * steps_per_mm_x mc_kit\<bar> \<le> 1 / 2" "\<bar>1 / 250 * steps_per_mm_z mc_kit\<bar> \<le> 1 / 2"
    by (simp_all add: mc_kit_def py_round_def)
  with zero_steps_is_noop [of "1 / 250" mc_kit env_kit "[]"] show ?thesis
    by simp
qed

text \<open>
  \<^bold>\<open>C5.\<close> Moving X by \<open>mm\<close> and then by \<open>- mm\<close> brings \<open>pos_x\<close> back to where it
  was: either both moves have a zero step count and neither writes the position, or both
  write it. Without a raising stepper call and with a delay that is not negative, both
  moves do return normally.
\<close>

theorem move_x_round_trip:
  "(move_x e mm (mc, tr) = (Returned, mc1, tr1) \<and> move_x e (- mm) (mc1, tr1) = (Returned, mc2, tr2)
      \<longrightarrow> pos_x mc2 = pos_x mc) \<and>
   (no_faults e \<and> 0 \<le> step_delay mc \<longrightarrow>
      fst (move_x e mm (mc, tr)) = Returned \<and>
      fst (move_x e (- mm) (snd (move_x e mm (mc, tr)))) = Returned)"
proof -
  have "pos_x mc2 = pos_x mc"
    if a: "move_x e mm (mc, tr) = (Returned, mc1, tr1)"
      and b: "move_x e (- mm) (mc1, tr1) = (Returned, mc2, tr2)"
  proof (cases "py_round (mm * steps_per_mm_x mc) = 0")
    case True
    with move_x_cases [OF a] have mc1: "mc1 = mc" by simp
    with True have "py_round (- mm * steps_per_mm_x mc1) = 0"
      using py_round_minus [of "mm * steps_per_mm_x mc"] by simp
    with move_x_cases [OF b] mc1 show ?thesis by simp
  next
    case False
    with move_x_cases [OF a] have mc1: "mc1 = mc\<lparr>pos_x := pos_x mc + mm\<rparr>" by simp
    with False have "py_round (- mm * steps_per_mm_x mc1) \<noteq> 0"
      using py_round_minus [of "mm * steps_per_mm_x mc"] by simp
    with move_x_cases [OF b] mc1 show ?thesis by simp
  qed
  moreover have "fst (move_x e mm (mc, tr)) = Returned \<and>
      fst (move_x e (- mm) (snd (move_x e mm (mc, tr)))) = Returned"
    if nf: "no_faults e \<and> 0 \<le> step_delay mc"
  proof -
    obtain out mc1 tr1 where a: "move_x e mm (mc, tr) = (out, mc1, tr1)"
      by (cases "move_x e mm (mc, tr)") auto
    from move_x_cases [OF a] have "step_delay mc1 = step_delay mc" by (auto split: if_splits)
    with nf move_x_no_faults [of e mc mm tr] move_x_no_faults [of e mc1 "- mm" tr1] a
    show ?thesis by simp
  qed
  ultimately show ?thesis by blast
qed

theorem move_x_round_trip_witness:
  "move_x env_stub (3 / 250) (mc_stub, []) =
     (Returned, mc_stub\<lparr>pos_x := 3 / 250\<rparr>,
      [StubPrint ''x_left'' FORWARD, StubPrint ''x_right'' FORWARD, Sleep (1 / 100)]) \<and>
   move_x env_stub (- (3 / 250))
     (mc_stub\<lparr>pos_x := 3 / 250\<rparr>,
      [StubPrint ''x_left'' FORWARD, StubPrint ''x_right'' FORWARD, Sleep (1 / 100)]) =
     (Returned, mc_stub\<lparr>pos_x := 0\<rparr>,
      [StubPrint ''x_left'' FORWARD, StubPrint ''x_right'' FORWARD, Sleep (1 / 100),
       StubPrint ''x_left'' BACKWARD, StubPrint ''x_right'' BACKWARD, Sleep (1 / 100)]) \<and>
   pos_x (mc_stub\<lparr>pos_x := 0\<rparr>) = pos_x mc_stub \<and>
   no_faults env_stub \<and> 0 \<le> step_delay mc_stub"
  using move_x_round_trip [of env_stub "3 / 250" mc_stub "[]" "mc_stub\<lparr>pos_x := 3 / 250\<rparr>"
      "[StubPrint ''x_left'' FORWARD, StubPrint ''x_right'' FORWARD, Sleep (1 / 100)]"
      "mc_stub\<lparr>pos_x := 0\<rparr>"
      "[StubPrint ''x_left'' FORWARD, StubPrint ''x_right'' FORWARD, Sleep (1 / 100),
       StubPrint ''x_left'' BACKWARD, StubPrint ''x_right'' BACKWARD, Sleep (1 / 100)]"]
    move_x_stub_forth
    move_x_stub_back [of "[StubPrint ''x_left'' FORWARD, StubPrint ''x_right'' FORWARD, Sleep (1 / 100)]"]
    no_faults_stub
  by (simp add: mc_stub_def)

text \<open>
  \<^bold>\<open>C6, as stated,\<close> fails on a coarse calibration: with 0.1 steps per
  millimetre on Z, two millimetres round to zero steps, and \<open>move_z 2\<close> on the
  unresolved \<open>z_axis\<close> leaves the position where it was.
\<close>

theorem unresolved_z_move_counterexample:
  "init env_kit cfg_coarse = Inr mc_coarse \<and>
   kit_stepper env_kit 3 = None \<and>
   steppers mc_coarse ''z_axis'' = Some None \<and>
   0 < steps_per_mm_z mc_coarse \<and>
   move_z env_kit 2 (mc_coarse, []) = (Returned, mc_coarse, []) \<and>
   pos_z mc_coarse \<noteq> pos_z mc_coarse + 2"
  by (simp add: init_coarse)
     (simp add: env_kit_def mc_coarse_def mc_kit_def move_z_def py_round_def)

text \<open>
  \<^bold>\<open>C6, amended.\<close> Construction does not fail over a channel that cannot be resolved; the
  motor is bound to \<open>None\<close>, every step of it prints the stub line for every controller
  with this stepper map, and no operation writes the map. For \<open>z_axis\<close> and a delay that
  is not negative, \<open>move_z 2\<close> returns normally without a physical call, and adds exactly
  2 to \<open>pos_z\<close> unless its step count rounds to zero.
\<close>

theorem unresolved_channel_is_simulated:
  assumes "stepper_attr e (get_default (cfg_step_style cfg) ''SINGLE'') \<noteq> None"
    and "cfg_calibration cfg \<noteq> None"
    and "cfg_motors cfg = Some motors"
    and "distinct (map fst motors)"
    and "(name, channel) \<in> set motors"
    and "\<not> real_hardware e \<or> kit_stepper e channel = None"
  shows "\<exists>mc. init e cfg = Inr mc \<and> steppers mc name = Some None \<and>
     (\<forall>mc' d tr. steppers mc' = steppers mc \<longrightarrow>
        step_motor e mc' name d tr = (Returned, tr @ [StubPrint name d])) \<and>
     (\<forall>mc' tr. steppers mc' = steppers mc \<and> name = ''z_axis'' \<and> 0 \<le> step_delay mc' \<longrightarrow>
        (\<exists>tr'. move_z e 2 (mc', tr) =
           (Returned, (if py_round (2 * steps_per_mm_z mc') = 0 then mc'
                       else mc'\<lparr>pos_z := pos_z mc' + 2\<rparr>), tr') \<and>
         physical tr' = physical tr)) \<and>
     (\<forall>mc' tr mm x_mm z_mm r.
        steppers (fst (snd (move_x e mm (mc', tr)))) = steppers mc' \<and>
        steppers (fst (snd (move_z e mm (mc', tr)))) = steppers mc' \<and>
        (move_to e x_mm z_mm (mc', tr) = Some r \<longrightarrow> steppers (fst (snd r)) = steppers mc') \<and>
        steppers (fst (home (mc', tr))) = steppers mc')"
proof -
  from assms(1, 2) obtain mc where mc: "init e cfg = Inr mc"
    and st: "steppers mc = init_steppers e (get_default (cfg_motors cfg) []) Map.empty"
    by (auto simp: init_def split: option.splits)
  from assms(6) have "resolve e channel = None" by (auto simp: resolve_def)
  with st assms(3, 4, 5) have bound: "steppers mc name = Some None"
    by (simp add: get_default_def init_steppers_bound)
  have stub: "step_motor e mc' name d tr = (Returned, tr @ [StubPrint name d])"
    if "steppers mc' = steppers mc" for mc' d tr
    using that bound by (simp add: step_motor_simulated)
  have z: "\<exists>tr'. move_z e 2 (mc', tr) =
           (Returned, (if py_round (2 * steps_per_mm_z mc') = 0 then mc'
                       else mc'\<lparr>pos_z := pos_z mc' + 2\<rparr>), tr') \<and>
         physical tr' = physical tr"
    if "steppers mc' = steppers mc \<and> name = ''z_axis'' \<and> 0 \<le> step_delay mc'" for mc' tr
    using that bound move_z_simulated [of e mc' 2 tr] by (simp add: simulated_def)
  have s1: "\<forall>mc' d tr. steppers mc' = steppers mc \<longrightarrow>
        step_motor e mc' name d tr = (Returned, tr @ [StubPrint name d])"
    using stub by blast
  have s2: "\<forall>mc' tr. steppers mc' = steppers mc \<and> name = ''z_axis'' \<and> 0 \<le> step_delay mc' \<longrightarrow>
        (\<exists>tr'. move_z e 2 (mc', tr) =
           (Returned, (if py_round (2 * steps_per_mm_z mc') = 0 then mc'
                       else mc'\<lparr>pos_z := pos_z mc' + 2\<rparr>), tr') \<and>
         physical tr' = physical tr)"
    using z by blast
  have s3: "\<forall>mc' tr mm x_mm z_mm r.
        steppers (fst (snd (move_x e mm (mc', tr)))) = steppers mc' \<and>
        steppers (fst (snd (move_z e mm (mc', tr)))) = steppers mc' \<and>
        (move_to e x_mm z_mm (mc', tr) = Some r \<longrightarrow> steppers (fst (snd r)) = steppers mc') \<and>
        steppers (fst (home (mc', tr))) = steppers mc'"
    by (intro allI conjI impI move_x_steppers move_z_steppers home_steppers)
       (rule move_to_steppers)
  show ?thesis
    using mc bound s1 s2 s3 by - (rule exI [of _ mc], intro conjI; assumption)
qed

theorem unresolved_channel_is_simulated_witness:
  "stepper_attr env_kit (get_default (cfg_step_style cfg_default) ''SINGLE'') \<noteq> None \<and>
   cfg_calibration cfg_default \<noteq> None \<and>
   cfg_motors cfg_default = Some [(''x_left'', 1), (''x_right'', 2), (''z_axis'', 3)] \<and>
   distinct (map fst [(''x_left'', 1 :: int), (''x_right'', 2), (''z_axis'', 3)]) \<and>
   (''z_axis'', 3) \<in> set [(''x_left'', 1 :: int), (''x_right'', 2), (''z_axis'', 3)] \<and>
   kit_stepper env_kit 3 = None \<and>
   steppers mc_kit ''z_axis'' = Some None \<and>
   step_motor env_kit mc_kit ''z_axis'' FORWARD [] = (Returned, [StubPrint ''z_axis'' FORWARD]) \<and>
   (\<exists>tr'. move_z env_kit 2 (mc_kit, []) = (Returned, mc_kit\<lparr>pos_z := 2\<rparr>, tr') \<and> physical tr' = [])"
proof -
  have h1: "stepper_attr env_kit (get_default (cfg_step_style cfg_default) ''SINGLE'') \<noteq> None"
    by (simp add: cfg_default_def get_default_def stepper_attr_def)
  have h2: "cfg_calibration cfg_default \<noteq> None"
    by (simp add: cfg_default_def)
  have h3: "cfg_motors cfg_default = Some [(''x_left'', 1), (''x_right'', 2), (''z_axis'', 3)]"
    by (simp add: cfg_default_def)
  have h4: "distinct (map fst [(''x_left'', 1 :: int), (''x_right'', 2), (''z_axis'', 3)])"
    by simp
  have h5: "(''z_axis'', 3) \<in> set [(''x_left'', 1 :: int), (''x_right'', 2), (''z_axis'', 3)]"
    by simp
  have h6: "\<not> real_hardware env_kit \<or> kit_stepper env_kit 3 = None"
    by (simp add: env_kit_def)
  from unresolved_channel_is_simulated [OF h1 h2 h3 h4 h5 h6] init_kit
  have a: "steppers mc_kit ''z_axis'' = Some None"
    and b: "\<forall>mc' d tr. steppers mc' = steppers mc_kit \<longrightarrow>
        step_motor env_kit mc' ''z_axis'' d tr = (Returned, tr @ [StubPrint ''z_axis'' d])"
    and c: "\<forall>mc' tr. steppers mc' = steppers mc_kit \<and> ''z_axis'' = ''z_axis'' \<and> 0 \<le> step_delay mc' \<longrightarrow>
        (\<exists>tr'. move_z env_kit 2 (mc', tr) =
           (Returned, (if py_round (2 * steps_per_mm_z mc') = 0 then mc'
                       else mc'\<lparr>pos_z := pos_z mc' + 2\<rparr>), tr') \<and>
         physical tr' = physical tr)"
    by auto
  from b have b': "step_motor env_kit mc_kit ''z_axis'' FORWARD [] = (Returned, [StubPrint ''z_axis'' FORWARD])"
    by simp
  have "0 \<le> step_delay mc_kit" "py_round (2 * steps_per_mm_z mc_kit) \<noteq> 0" "pos_z mc_kit = 0"
    by (simp_all add: mc_kit_def py_round_def)
  with c [rule_format, of mc_kit "[]"]
  have c': "\<exists>tr'. move_z env_kit 2 (mc_kit, []) = (Returned, mc_kit\<lparr>pos_z := 2\<rparr>, tr') \<and> physical tr' = []"
    by (simp add: physical_def)
  have h6': "kit_stepper env_kit 3 = None"
    by (simp add: env_kit_def)
  from h1 h2 h3 h4 h5 h6' a b' c' show ?thesis by blast
qed

text \<open>
  \<^bold>\<open>C7, as stated,\<close> fails: on a rig whose second \<open>onestep\<close> call raises,
  a move of two step groups stops at that call: the second group is never stepped, no
  delay is slept and the position is not written.
\<close>

theorem failed_step_counterexample:
  "move_x env_rig (1 / 40) (mc_rig, []) =
     (Inl DriverError, mc_rig,
      [Onestep ''x_left'' 1 SINGLE FORWARD, Onestep ''x_right'' 2 SINGLE FORWARD]) \<and>
   onestep_raises env_rig [Onestep ''x_left'' 1 SINGLE FORWARD, Onestep ''x_right'' 2 SINGLE FORWARD] \<and>
   nat \<bar>py_round (1 / 40 * steps_per_mm_x mc_rig)\<bar> = 2 \<and>
   steps_of ''x_left'' [Onestep ''x_left'' 1 SINGLE FORWARD, Onestep ''x_right'' 2 SINGLE FORWARD] = 1 \<and>
   pos_x mc_rig \<noteq> pos_x mc_rig + 1 / 40"
  by (simp add: move_x_rig_run) (simp add: env_rig_def mc_rig_def py_round_def steps_of_def)

text \<open>
  \<^bold>\<open>C7, amended.\<close> A move in which a stepper call raises ends there. The exception reaches
  the caller, the raising call is the last entry of the trace, fewer delays were slept
  than the move has step groups, nothing is retried or undone, and the controller, its
  position included, is as it was before the move.
\<close>

theorem failed_step_aborts_move:
  "(move_x e mm (mc, tr) = (Inl DriverError, mc', tr') \<longrightarrow>
      mc' = mc \<and> aborted e tr tr' \<and>
      sleeps tr' < sleeps tr + nat \<bar>py_round (mm * steps_per_mm_x mc)\<bar>) \<and>
   (move_z e mm (mc, tr) = (Inl DriverError, mc', tr') \<longrightarrow>
      mc' = mc \<and> aborted e tr tr' \<and>
      sleeps tr' < sleeps tr + nat \<bar>py_round (mm * steps_per_mm_z mc)\<bar>) \<and>
   (move_to e x_mm z_mm (mc, tr) = Some (Inl DriverError, mc', tr') \<longrightarrow>
      mc' = mc \<and> aborted e tr tr')"
proof (intro conjI impI)
  assume a: "move_x e mm (mc, tr) = (Inl DriverError, mc', tr')"
  from move_x_cases [OF a] have
    g: "step_groups e mc [''x_left'', ''x_right''] (direction_of (py_round (mm * steps_per_mm_x mc)))
          (nat \<bar>py_round (mm * steps_per_mm_x mc)\<bar>) tr = (Inl DriverError, tr')"
    and m: "mc' = mc"
    by simp_all
  from m show "mc' = mc" .
  from step_groups_error [OF g] show "aborted e tr tr'"
    and "sleeps tr' < sleeps tr + nat \<bar>py_round (mm * steps_per_mm_x mc)\<bar>"
    by simp_all
next
  assume a: "move_z e mm (mc, tr) = (Inl DriverError, mc', tr')"
  from move_z_cases [OF a] have
    g: "step_groups e mc [''z_axis''] (direction_of (py_round (mm * steps_per_mm_z mc)))
          (nat \<bar>py_round (mm * steps_per_mm_z mc)\<bar>) tr = (Inl DriverError, tr')"
    and m: "mc' = mc"
    by simp_all
  from m show "mc' = mc" .
  from step_groups_error [OF g] show "aborted e tr tr'"
    and "sleeps tr' < sleeps tr + nat \<bar>py_round (mm * steps_per_mm_z mc)\<bar>"
    by simp_all
next
  assume a: "move_to e x_mm z_mm (mc, tr) = Some (Inl DriverError, mc', tr')"
  with move_to_run [of e x_mm z_mm mc tr] show "mc' = mc" and "aborted e tr tr'"
    by auto
qed

theorem failed_step_aborts_move_witness:
  "move_x env_rig (1 / 40) (mc_rig, []) =
     (Inl DriverError, mc_rig,
      [Onestep ''x_left'' 1 SINGLE FORWARD, Onestep ''x_right'' 2 SINGLE FORWARD]) \<and>
   aborted env_rig [] [Onestep ''x_left'' 1 SINGLE FORWARD, Onestep ''x_right'' 2 SINGLE FORWARD] \<and>
   move_z env_rig (1 / 50) (mc_rig, []) =
     (Inl DriverError, mc_rig,
      [Onestep ''z_axis'' 3 SINGLE FORWARD, Sleep (1 / 100), Onestep ''z_axis'' 3 SINGLE FORWARD]) \<and>
   aborted env_rig []
      [Onestep ''z_axis'' 3 SINGLE FORWARD, Sleep (1 / 100), Onestep ''z_axis'' 3 SINGLE FORWARD] \<and>
   move_to env_rig (1 / 40) (1 / 100) (mc_rig, []) =
     Some (Inl DriverError, mc_rig,
      [Onestep ''x_left'' 1 SINGLE FORWARD, Onestep ''x_right'' 2 SINGLE FORWARD])"
  using
    failed_step_aborts_move [of env_rig "1 / 40" mc_rig "[]" mc_rig
      "[Onestep ''x_left'' 1 SINGLE FORWARD, Onestep ''x_right'' 2 SINGLE FORWARD]" "1 / 40" "1 / 100"]
    failed_step_aborts_move [of env_rig "1 / 50" mc_rig "[]" mc_rig
      "[Onestep ''z_axis'' 3 SINGLE FORWARD, Sleep (1 / 100), Onestep ''z_axis'' 3 SINGLE FORWARD]" 0 0]
    move_x_rig_run move_z_rig_run move_to_rig_run
  by simp

text \<open>
  \<^bold>\<open>C8.\<close> The home button sets the position to \<open>(0, 0)\<close> from any state, changes
  nothing else of the controller, and makes no driver call and no delay.
\<close>

theorem home_resets_position:
  "fst (home (mc, tr)) = mc\<lparr>pos_x := 0, pos_z := 0\<rparr> \<and>
   pos_x (fst (home (mc, tr))) = 0 \<and> pos_z (fst (home (mc, tr))) = 0 \<and>
   driver_calls (snd (home (mc, tr))) = driver_calls tr \<and>
   sleeps (snd (home (mc, tr))) = sleeps tr"
  by (simp add: home_def update_position_def driver_calls_def sleeps_def)

text \<open>
  \<^bold>\<open>C9.\<close> When both step counts of \<open>move_to\<close> round to zero the call returns
  normally with the trace unchanged and the position set to the target; if a delta is
  not zero the controller has changed without any motion.
\<close>

theorem move_to_below_one_step:
  assumes "py_round ((x_mm - pos_x mc) * steps_per_mm_x mc) = 0"
    and "py_round ((z_mm - pos_z mc) * steps_per_mm_z mc) = 0"
  shows "move_to e x_mm z_mm (mc, tr) = Some (Returned, mc\<lparr>pos_x := x_mm, pos_z := z_mm\<rparr>, tr) \<and>
         (x_mm \<noteq> pos_x mc \<or> z_mm \<noteq> pos_z mc \<longrightarrow> mc\<lparr>pos_x := x_mm, pos_z := z_mm\<rparr> \<noteq> mc)"
proof -
  from assms have "move_to e x_mm z_mm (mc, tr) = Some (Returned, mc\<lparr>pos_x := x_mm, pos_z := z_mm\<rparr>, tr)"
    by (simp add: move_to_def interleave.simps)
  moreover have "mc\<lparr>pos_x := x_mm, pos_z := z_mm\<rparr> \<noteq> mc" if "x_mm \<noteq> pos_x mc \<or> z_mm \<noteq> pos_z mc"
  proof
    assume "mc\<lparr>pos_x := x_mm, pos_z := z_mm\<rparr> = mc"
    then have "pos_x (mc\<lparr>pos_x := x_mm, pos_z := z_mm\<rparr>) = pos_x mc"
      and "pos_z (mc\<lparr>pos_x := x_mm, pos_z := z_mm\<rparr>) = pos_z mc"
      by simp_all
    with that show False by simp
  qed
  ultimately show ?thesis by blast
qed

theorem move_to_below_one_step_witness:
  "py_round ((1 / 200 - pos_x mc_kit) * steps_per_mm_x mc_kit) = 0 \<and>
   py_round ((1 / 250 - pos_z mc_kit) * steps_per_mm_z mc_kit) = 0 \<and>
   1 / 200 \<noteq> pos_x mc_kit \<and>
   move_to env_kit (1 / 200) (1 / 250) (mc_kit, []) =
     Some (Returned, mc_kit\<lparr>pos_x := 1 / 200, pos_z := 1 / 250\<rparr>, []) \<and>
   mc_kit\<lparr>pos_x := 1 / 200, pos_z := 1 / 250\<rparr> \<noteq> mc_kit"
proof -
  have h1: "py_round ((1 / 200 - pos_x mc_kit) * steps_per_mm_x mc_kit) = 0"
    and h2: "py_round ((1 / 250 - pos_z mc_kit) * steps_per_mm_z mc_kit) = 0"
    and h3: "1 / 200 \<noteq> pos_x mc_kit"
    by (simp_all add: mc_kit_def py_round_def)
  from move_to_below_one_step [OF h1 h2, of env_kit "[]"] h1 h2 h3 show ?thesis
    by simp
qed

text \<open>
  \<^bold>\<open>C10.\<close> For step counts that are not negative the loop of \<open>move_to\<close> returns,
  with both counters at their targets when it returns normally. The start state is on
  the line; in a state on the line and before the end one of the two branches fires, and
  an iteration that returns stays on the line with \<open>x + z\<close> strictly larger. The two
  comparisons of the accumulator cannot both fail before the end.
\<close>

theorem interleave_terminates:
  assumes "0 \<le> xs" and "0 \<le> zs"
  shows "(\<exists>out err' x' z' tr'.
            interleave e mc sx sz xs zs (xs - zs, 0, 0, tr) = Some (out, err', x', z', tr') \<and>
            (out = Returned \<longrightarrow> x' = xs \<and> z' = zs)) \<and>
         on_line xs zs (xs - zs, 0, 0, tr) \<and>
         (\<forall>err x z t err' x' z' t'.
            on_line xs zs (err, x, z, t) \<and> (x < xs \<or> z < zs) \<longrightarrow>
              ((x < xs \<and> err * 2 > - zs) \<or> (z < zs \<and> err * 2 < xs)) \<and>
              (loop_body e mc sx sz xs zs (err, x, z, t) = (Returned, err', x', z', t') \<longrightarrow>
                 on_line xs zs (err', x', z', t') \<and> x + z < x' + z')) \<and>
         (\<forall>err x z. 0 \<le> x \<and> 0 \<le> z \<and> (x < xs \<or> z < zs) \<longrightarrow> err * 2 > - zs \<or> err * 2 < xs)"
proof (intro conjI allI impI)
  from assms show line: "on_line xs zs (xs - zs, 0, 0, tr)" by (rule on_line_start)
  from interleave_run [OF line, of e mc sx sz]
  show "\<exists>out err' x' z' tr'.
            interleave e mc sx sz xs zs (xs - zs, 0, 0, tr) = Some (out, err', x', z', tr') \<and>
            (out = Returned \<longrightarrow> x' = xs \<and> z' = zs)"
    by blast
next
  fix err x z t err' x' z' t'
  assume a: "on_line xs zs (err, x, z, t) \<and> (x < xs \<or> z < zs)"
  then show "(x < xs \<and> err * 2 > - zs) \<or> (z < zs \<and> err * 2 < xs)"
    using branch_fires by blast
next
  fix err x z t err' x' z' t'
  assume a: "on_line xs zs (err, x, z, t) \<and> (x < xs \<or> z < zs)"
    and b: "loop_body e mc sx sz xs zs (err, x, z, t) = (Returned, err', x', z', t')"
  from a b loop_body_progress [of xs zs err x z t e mc sx sz "(err', x', z', t')"]
  show "on_line xs zs (err', x', z', t')" by simp
  from a branch_fires [of xs zs err x z t]
  have "(x < xs \<and> err * 2 > - zs) \<or> (z < zs \<and> err * 2 < xs)" by simp
  with loop_body_ok [OF b] show "x + z < x' + z'" by auto
next
  fix err x z :: int
  assume "0 \<le> x \<and> 0 \<le> z \<and> (x < xs \<or> z < zs)"
  with assms show "err * 2 > - zs \<or> err * 2 < xs" by linarith
qed

theorem interleave_terminates_witness:
  "(0 :: int) \<le> 5 \<and> (0 :: int) \<le> 2 \<and>
   (\<exists>err' tr'. interleave env_stub mc_stub FORWARD FORWARD 5 2 (5 - 2, 0, 0, []) =
       Some (Returned, err', 5, 2, tr')) \<and>
   on_line 5 2 (3, 0, 0, []) \<and> ((0 :: int) < 5 \<or> (0 :: int) < 2) \<and>
   loop_body env_stub mc_stub FORWARD FORWARD 5 2 (3, 0, 0, []) =
     (Returned, 1, 1, 0, [StubPrint ''x_left'' FORWARD, StubPrint ''x_right'' FORWARD, Sleep (1 / 100)]) \<and>
   on_line 5 2 (1, 1, 0, [StubPrint ''x_left'' FORWARD, StubPrint ''x_right'' FORWARD, Sleep (1 / 100)])"
proof -
  have h1: "(0 :: int) \<le> 5" and h2: "(0 :: int) \<le> 2" by simp_all
  have body: "loop_body env_stub mc_stub FORWARD FORWARD 5 2 (3, 0, 0, []) =
     (Returned, 1, 1, 0, [StubPrint ''x_left'' FORWARD, StubPrint ''x_right'' FORWARD, Sleep (1 / 100)])"
    by (simp add: mc_stub_def env_stub_def loop_body_def x_branch_def z_branch_def
      step_multiple_def step_motor_def)
  note t = interleave_terminates [OF h1 h2, of env_stub mc_stub FORWARD FORWARD "[]"]
  from t interleave_stub_run
  have a: "\<exists>err' tr'. interleave env_stub mc_stub FORWARD FORWARD 5 2 (5 - 2, 0, 0, []) =
       Some (Returned, err', 5, 2, tr')"
    by simp
  from t have b: "on_line 5 2 (3, 0, 0, [])" by simp
  from t [THEN conjunct2, THEN conjunct2, THEN conjunct1, rule_format, of 3 0 0 "[]"] b body
  have c: "on_line 5 2 (1, 1, 0, [StubPrint ''x_left'' FORWARD, StubPrint ''x_right'' FORWARD, Sleep (1 / 100)])"
    by simp
  from h1 h2 a b body c show ?thesis by simp
qed

end
